theory Spec2Isabelle
  imports Complex_Main "HOL-Library.Multiset" "HOL-Library.Sublist" "HOL-Library.Log_Nat"
begin

section \<open>JavaScript numbers\<close>

text \<open>
  A JavaScript number is a double. The model keeps the three kinds of value the code
  tells apart (\<open>NaN\<close>, the two infinities, and the finite numbers) and writes a finite
  number as the rational it denotes. The negative zero is identified with zero (the code
  only ever tests a number with \<open>||\<close>, \<open>!== 0\<close>, \<open>===\<close> and \<open>>=\<close>, none of which
  tells the zeros apart).
\<close>

datatype jsnum = NaN | PosInf | NegInf | Fin rat

subsection \<open>Rounding to a double\<close>

text \<open>
  The result of an arithmetic operation and the value of a numeric literal is the exact
  result rounded to the nearest double, a tie going to the even significand (IEEE 754,
  binary64). A double with exponent \<open>e\<close> is a multiple of \<open>2^(e-52)\<close> with a
  significand below \<open>2^53\<close>; the least exponent is -1022, below which the subnormal
  numbers keep the spacing \<open>2^(-1074)\<close> down to zero; a result that rounds to
  \<open>2^1024\<close> or more is infinite.
\<close>

definition pow2 :: "int \<Rightarrow> rat" where
  "pow2 k = (if 0 \<le> k then 2 ^ nat k else 1 / 2 ^ nat (- k))"

text \<open>
  The exponent of a positive rational, the integer part of its binary logarithm: the
  numerator and the denominator have \<open>bitlen\<close> binary digits, so the exponent is the
  difference of the two lengths or one less.
\<close>

definition floor_log2 :: "rat \<Rightarrow> int" where
  "floor_log2 a =
     (let k = bitlen (fst (quotient_of a)) - bitlen (snd (quotient_of a))
      in if pow2 k \<le> a then k else k - 1)"

definition round_half_even :: "rat \<Rightarrow> int" where
  "round_half_even x =
     (let n = \<lfloor>x\<rfloor>; f = x - of_int n
      in if f < 1 / 2 then n else if 1 / 2 < f then n + 1 else if even n then n else n + 1)"

text \<open>The double nearest to a positive rational; \<open>None\<close> when it is infinite.\<close>

definition round_magnitude :: "rat \<Rightarrow> rat option" where
  "round_magnitude a =
     (let e = max (floor_log2 a) (- 1022);
          ulp = pow2 (e - 52);
          n = round_half_even (a / ulp)
      in if 1024 \<le> e \<or> (e = 1023 \<and> n = 2 ^ 53) then None else Some (of_int n * ulp))"

definition round_double :: "rat \<Rightarrow> jsnum" where
  "round_double q =
     (if q = 0 then Fin 0
      else case round_magnitude \<bar>q\<bar> of
             None \<Rightarrow> if 0 < q then PosInf else NegInf
           | Some r \<Rightarrow> Fin (if 0 < q then r else - r))"

subsection \<open>Operations\<close>

text \<open>\<open>a - b\<close> on numbers.\<close>

fun js_sub :: "jsnum \<Rightarrow> jsnum \<Rightarrow> jsnum" where
  "js_sub NaN _ = NaN"
| "js_sub _ NaN = NaN"
| "js_sub (Fin x) (Fin y) = round_double (x - y)"
| "js_sub PosInf PosInf = NaN"
| "js_sub NegInf NegInf = NaN"
| "js_sub PosInf _ = PosInf"
| "js_sub NegInf _ = NegInf"
| "js_sub (Fin x) PosInf = NegInf"
| "js_sub (Fin x) NegInf = PosInf"

text \<open>\<open>a * b\<close> on numbers.\<close>

fun js_sign :: "jsnum \<Rightarrow> rat" where
  "js_sign NaN = 0"
| "js_sign PosInf = 1"
| "js_sign NegInf = - 1"
| "js_sign (Fin x) = sgn x"

fun js_mul :: "jsnum \<Rightarrow> jsnum \<Rightarrow> jsnum" where
  "js_mul NaN _ = NaN"
| "js_mul _ NaN = NaN"
| "js_mul (Fin x) (Fin y) = round_double (x * y)"
| "js_mul a b =
     (if js_sign a * js_sign b = 0 then NaN
      else if js_sign a * js_sign b > 0 then PosInf else NegInf)"

text \<open>Unary minus.\<close>

fun js_neg :: "jsnum \<Rightarrow> jsnum" where
  "js_neg NaN = NaN"
| "js_neg PosInf = NegInf"
| "js_neg NegInf = PosInf"
| "js_neg (Fin x) = Fin (- x)"

text \<open>\<open>ToBoolean\<close> of a number: \<open>NaN\<close> and zero are falsy.\<close>

fun truthy :: "jsnum \<Rightarrow> bool" where
  "truthy NaN = False"
| "truthy (Fin x) = (x \<noteq> 0)"
| "truthy _ = True"

text \<open>\<open>a || b\<close> on numbers.\<close>

definition js_or :: "jsnum \<Rightarrow> jsnum \<Rightarrow> jsnum" where
  "js_or a b = (if truthy a then a else b)"

text \<open>\<open>a === b\<close> and \<open>a !== b\<close> on numbers: \<open>NaN\<close> is not equal to itself.\<close>

definition strict_eq :: "jsnum \<Rightarrow> jsnum \<Rightarrow> bool" where
  "strict_eq a b = (a \<noteq> NaN \<and> b \<noteq> NaN \<and> a = b)"

definition strict_ne :: "jsnum \<Rightarrow> jsnum \<Rightarrow> bool" where
  "strict_ne a b = (\<not> strict_eq a b)"

text \<open>\<open>a < b\<close>, \<open>a > b\<close> and \<open>a >= b\<close> on numbers: false as soon as one side is \<open>NaN\<close>.\<close>

fun js_lt :: "jsnum \<Rightarrow> jsnum \<Rightarrow> bool" where
  "js_lt NaN _ = False"
| "js_lt _ NaN = False"
| "js_lt (Fin x) (Fin y) = (x < y)"
| "js_lt PosInf _ = False"
| "js_lt _ PosInf = True"
| "js_lt NegInf NegInf = False"
| "js_lt NegInf _ = True"
| "js_lt (Fin x) NegInf = False"

definition js_gt :: "jsnum \<Rightarrow> jsnum \<Rightarrow> bool" where
  "js_gt a b = js_lt b a"

definition js_ge :: "jsnum \<Rightarrow> jsnum \<Rightarrow> bool" where
  "js_ge a b = (js_lt b a \<or> strict_eq a b)"

subsection \<open>Arrays of numbers\<close>

text \<open>
  \<open>v[idx]\<close> is \<open>undefined\<close> (\<open>None\<close>) beyond the end of the array; \<open>v[idx] = x\<close>
  overwrites an element or, at \<open>idx = v.length\<close>, appends one. A write further out
  leaves holes in a JavaScript array; holes read as \<open>undefined\<close>, which every
  operation of this program turns into \<open>NaN\<close> or \<open>0\<close> exactly as it does \<open>NaN\<close>, so
  the model fills them with \<open>NaN\<close>.
\<close>

definition array_get :: "'a list \<Rightarrow> nat \<Rightarrow> 'a option" where
  "array_get v idx = (if idx < length v then Some (v ! idx) else None)"

definition array_set :: "jsnum list \<Rightarrow> nat \<Rightarrow> jsnum \<Rightarrow> jsnum list" where
  "array_set v idx x =
     (if idx < length v then v[idx := x]
      else v @ replicate (idx - length v) NaN @ [x])"

text \<open>\<open>ToNumber\<close> of a possibly undefined number, and \<open>x || 0\<close>.\<close>

fun to_number :: "jsnum option \<Rightarrow> jsnum" where
  "to_number None = NaN"
| "to_number (Some x) = x"

definition or_zero :: "jsnum option \<Rightarrow> jsnum" where
  "or_zero x = js_or (to_number x) (Fin 0)"

subsection \<open>\<open>Number(string)\<close>\<close>

text \<open>
  Strings are lists of 8-bit characters, standing for the code units below 256; the code
  of a character is read as an integer. The white space that \<open>Number\<close> trims is tab, line
  feed, vertical tab, form feed, carriage return, space and the no-break space.
\<close>

definition is_ws :: "char \<Rightarrow> bool" where
  "is_ws c = (of_char c \<in> {9, 10, 11, 12, 13, 32, 160 :: int})"

definition trim :: "string \<Rightarrow> string" where
  "trim s = rev (dropWhile is_ws (rev (dropWhile is_ws s)))"

definition is_digit :: "char \<Rightarrow> bool" where
  "is_digit c = (48 \<le> (of_char c :: int) \<and> (of_char c :: int) \<le> 57)"

text \<open>The value of a digit in a base up to 16, if it is one.\<close>

definition digit_val :: "int \<Rightarrow> char \<Rightarrow> int option" where
  "digit_val base c =
     (let n = (of_char c :: int);
          d = (if 48 \<le> n \<and> n \<le> 57 then n - 48
               else if 97 \<le> n \<and> n \<le> 102 then n - 87
               else if 65 \<le> n \<and> n \<le> 70 then n - 55
               else 16)
      in if d < base then Some d else None)"

fun digits_val :: "int \<Rightarrow> int \<Rightarrow> string \<Rightarrow> int option" where
  "digits_val base acc [] = Some acc"
| "digits_val base acc (c # cs) =
     (case digit_val base c of
        None \<Rightarrow> None
      | Some d \<Rightarrow> digits_val base (acc * base + d) cs)"

text \<open>A non-empty run of digits of the base, as a number: the double nearest to its value.\<close>

definition int_literal :: "int \<Rightarrow> string \<Rightarrow> jsnum" where
  "int_literal base ds =
     (if ds = [] then NaN
      else case digits_val base 0 ds of None \<Rightarrow> NaN | Some n \<Rightarrow> round_double (of_int n))"

text \<open>The exponent part \<open>e\<close>/\<open>E\<close>, sign, digits; \<open>None\<close> when malformed.\<close>

definition exponent_part :: "string \<Rightarrow> int option" where
  "exponent_part s =
     (case s of
        [] \<Rightarrow> Some 0
      | c # r \<Rightarrow>
          if c = CHR ''e'' \<or> c = CHR ''E'' then
            (let (neg, ds) = (case r of
                                [] \<Rightarrow> (False, [])
                              | d # r' \<Rightarrow> if d = CHR ''-'' then (True, r')
                                          else if d = CHR ''+'' then (False, r')
                                          else (False, r))
             in if ds = [] then None
                else case digits_val 10 0 ds of
                       None \<Rightarrow> None
                     | Some n \<Rightarrow> Some (if neg then - n else n))
          else None)"

text \<open>
  An unsigned decimal literal: digits, an optional fraction, an optional exponent. Its
  mathematical value is a rational; the number is the double nearest to it.
\<close>

definition decimal_literal :: "string \<Rightarrow> rat option" where
  "decimal_literal u =
     (let ip = takeWhile is_digit u;
          r1 = dropWhile is_digit u;
          (fp, r2) = (case r1 of
                        [] \<Rightarrow> ([], [])
                      | c # r \<Rightarrow> if c = CHR ''.''
                                  then (takeWhile is_digit r, dropWhile is_digit r)
                                  else ([], r1))
      in if ip = [] \<and> fp = [] then None
         else case (digits_val 10 0 (ip @ fp), exponent_part r2) of
                (Some m, Some e) \<Rightarrow>
                  Some (if 0 \<le> e
                        then of_int m * 10 ^ nat e / 10 ^ length fp
                        else of_int m / 10 ^ nat (- e) / 10 ^ length fp)
              | _ \<Rightarrow> None)"

definition signed_literal :: "bool \<Rightarrow> string \<Rightarrow> jsnum" where
  "signed_literal neg u =
     (if u = ''Infinity'' then (if neg then NegInf else PosInf)
      else case decimal_literal u of
             None \<Rightarrow> NaN
           | Some q \<Rightarrow> round_double (if neg then - q else q))"

definition Number :: "string \<Rightarrow> jsnum" where
  "Number s =
     (let t = trim s in
      case t of
        [] \<Rightarrow> Fin 0
      | c # r \<Rightarrow>
          if c = CHR ''0'' \<and> r \<noteq> [] \<and> hd r \<in> {CHR ''x'', CHR ''X''} then int_literal 16 (tl r)
          else if c = CHR ''0'' \<and> r \<noteq> [] \<and> hd r \<in> {CHR ''o'', CHR ''O''} then int_literal 8 (tl r)
          else if c = CHR ''0'' \<and> r \<noteq> [] \<and> hd r \<in> {CHR ''b'', CHR ''B''} then int_literal 2 (tl r)
          else if c = CHR ''-'' then signed_literal True r
          else if c = CHR ''+'' then signed_literal False r
          else signed_literal False t)"

section \<open>Regular expressions and \<open>String.prototype.replace\<close>\<close>

text \<open>
  The patterns of the program use literal characters, \<open>\d\<close>, sequence, alternation,
  the greedy quantifiers \<open>?\<close> and \<open>+\<close>, and the anchors \<open>^\<close> and \<open>$\<close> (without the
  multiline flag: start and end of the input). \<open>r+\<close> is \<open>r\<close> followed by \<open>r*\<close>.
\<close>

datatype regex =
    Eps
  | Chr char
  | Digit
  | Seq regex regex
  | Alt regex regex
  | Opt regex
  | Star regex
  | Bol
  | Eol

definition Plus :: "regex \<Rightarrow> regex" where
  "Plus r = Seq r (Star r)"

fun lit :: "string \<Rightarrow> regex" where
  "lit [] = Eps"
| "lit (c # cs) = Seq (Chr c) (lit cs)"

text \<open>
  With the flag \<open>i\<close> two characters match when their canonical forms agree. The
  patterns hold ASCII characters only, and the canonical form of a character outside
  ASCII is never an ASCII character, so upper-casing the ASCII letters decides every
  comparison the patterns make.
\<close>

definition canonicalize :: "bool \<Rightarrow> char \<Rightarrow> char" where
  "canonicalize ignoreCase c =
     (if ignoreCase \<and> 97 \<le> (of_char c :: int) \<and> (of_char c :: int) \<le> 122
      then char_of ((of_char c :: int) - 32) else c)"

text \<open>
  A cursor is the index of the next character and the rest of the input. The matcher
  returns the cursors at which a match of the pattern can end, in the order in which the
  backtracking matcher of the language tries them: the first is the match it reports.
\<close>

type_synonym cursor = "nat \<times> string"

text \<open>
  \<open>r*\<close>, greedy: one more repetition first, then none. A repetition that consumes
  nothing is rejected, as the language does.
\<close>

function star_loop :: "(cursor \<Rightarrow> cursor list) \<Rightarrow> cursor \<Rightarrow> cursor list" where
  "star_loop m p =
     concat (map (\<lambda>q. if length (snd q) < length (snd p) then star_loop m q else [])
                 (m p)) @ [p]"
  by pat_completeness auto
termination
  by (relation "measure (\<lambda>(m, p). length (snd p))") auto

declare star_loop.simps [simp del]

primrec rmatch :: "bool \<Rightarrow> regex \<Rightarrow> cursor \<Rightarrow> cursor list" where
  "rmatch ic Eps p = [p]"
| "rmatch ic (Chr c) p =
     (case snd p of
        [] \<Rightarrow> []
      | x # xs \<Rightarrow> if canonicalize ic x = canonicalize ic c then [(Suc (fst p), xs)] else [])"
| "rmatch ic Digit p =
     (case snd p of
        [] \<Rightarrow> []
      | x # xs \<Rightarrow> if is_digit x then [(Suc (fst p), xs)] else [])"
| "rmatch ic (Seq r1 r2) p = concat (map (rmatch ic r2) (rmatch ic r1 p))"
| "rmatch ic (Alt r1 r2) p = rmatch ic r1 p @ rmatch ic r2 p"
| "rmatch ic (Opt r) p = rmatch ic r p @ [p]"
| "rmatch ic (Star r) p = star_loop (rmatch ic r) p"
| "rmatch ic Bol p = (if fst p = 0 then [p] else [])"
| "rmatch ic Eol p = (if snd p = [] then [p] else [])"

text \<open>
  The search tries every start index from the left, the end of the input included, and
  reports the start index with the cursor where the match ends.
\<close>

fun search :: "bool \<Rightarrow> regex \<Rightarrow> nat \<Rightarrow> string \<Rightarrow> (nat \<times> cursor) option" where
  "search ic r i [] = (case rmatch ic r (i, []) of [] \<Rightarrow> None | e # _ \<Rightarrow> Some (i, e))"
| "search ic r i (c # cs) =
     (case rmatch ic r (i, c # cs) of
        [] \<Rightarrow> search ic r (Suc i) cs
      | e # _ \<Rightarrow> Some (i, e))"

text \<open>\<open>s.replace(/r/, repl)\<close>: the first match only. No replacement text of the program holds a \<open>$\<close>.\<close>

definition replace :: "bool \<Rightarrow> regex \<Rightarrow> string \<Rightarrow> string \<Rightarrow> string" where
  "replace ic r repl s =
     (case search ic r 0 s of
        None \<Rightarrow> s
      | Some (i, e) \<Rightarrow> take i s @ repl @ snd e)"

text \<open>
  \<open>s.replace(/r/g, repl)\<close>: every match, each search starting where the match before
  ended (one character further after an empty match).
\<close>

function replace_from :: "bool \<Rightarrow> regex \<Rightarrow> string \<Rightarrow> nat \<Rightarrow> string \<Rightarrow> string" where
  "replace_from ic r repl i s =
     (case rmatch ic r (i, s) of
        [] \<Rightarrow> (case s of [] \<Rightarrow> [] | c # cs \<Rightarrow> c # replace_from ic r repl (Suc i) cs)
      | e # _ \<Rightarrow>
          if length (snd e) < length s then repl @ replace_from ic r repl (fst e) (snd e)
          else repl @ (case s of [] \<Rightarrow> [] | c # cs \<Rightarrow> c # replace_from ic r repl (Suc i) cs))"
  by pat_completeness auto
termination
  by (relation "measure (\<lambda>(ic, r, repl, i, s). length s)") auto

declare replace_from.simps [simp del]

definition replace_all :: "bool \<Rightarrow> regex \<Rightarrow> string \<Rightarrow> string \<Rightarrow> string" where
  "replace_all ic r repl s = replace_from ic r repl 0 s"

text \<open>\<open>s.split('.')\<close> for a one-character separator: the empty string gives one empty piece.\<close>

fun split :: "char \<Rightarrow> string \<Rightarrow> string list" where
  "split sep [] = [[]]"
| "split sep (c # cs) =
     (if c = sep then [] # split sep cs
      else (c # hd (split sep cs)) # tl (split sep cs))"

section \<open>Version numbers\<close>

text \<open>\<open>parseVersionNumber\<close>: ten replacements, then a split at the dots.\<close>

definition parseVersionNumber :: "string \<Rightarrow> jsnum list" where
  "parseVersionNumber version =
     (let s1 = replace True (Seq (lit '' 64-bit'') Eol) [] version;
          s2 = replace True (Seq (lit '' Beta'') Eol) [] s1;
          s3 = replace True (Seq (lit '' Preview'') Eol) [] s2;
          s4 = replace True (Seq (lit '' Home'') Eol) [] s3;
          s5 = replace True (Seq (lit '' Service Pack '') (Seq Digit Eol)) [] s4;
          s6 = replace True
                 (Seq Bol (Seq (Opt (lit ''Windows '')) (Seq (lit ''XP'') (Opt (Chr CHR '' '')))))
                 ''5.1'' s5;
          s7 = replace True
                 (Seq Bol (Seq (Opt (lit ''Windows '')) (Seq (lit ''Vista'') (Opt (Chr CHR '' '')))))
                 ''6.0'' s6;
          s8 = replace True
                 (Seq Bol (Seq (Alt (lit ''Windows'') (lit ''Win'')) (Opt (Chr CHR '' ''))))
                 [] s7;
          s9 = replace True
                 (Seq Bol (Seq (Alt (lit ''Mac OS X'') (Alt (lit ''Mac OSX'') (Alt (lit ''MacOS'')
                    (Alt (lit ''OSX'') (lit ''Mac''))))) (Opt (Chr CHR '' ''))))
                 [] s8;
          numeric = replace_all False
                 (Seq (Plus (Seq (Chr CHR ''.'') (Plus (Chr CHR ''0'')))) Eol)
                 [] s9
      in map Number (split CHR ''.'' numeric))"

text \<open>
  \<open>compareVersions\<close>. The first \<open>forEach\<close> runs over the indices of \<open>v1\<close> and writes
  \<open>v2\<close>; the second runs over the indices of the \<open>v2\<close> so extended and writes \<open>v1\<close>.
\<close>

definition pad_each :: "nat \<Rightarrow> jsnum list \<Rightarrow> jsnum list" where
  "pad_each n v = foldl (\<lambda>w idx. array_set w idx (or_zero (array_get w idx))) v [0..<n]"

definition compareVersions :: "string \<Rightarrow> string \<Rightarrow> jsnum" where
  "compareVersions version1 version2 =
     (let v1 = parseVersionNumber version1;
          v2 = parseVersionNumber version2;
          v2 = pad_each (length v1) v2;
          v1 = pad_each (length v2) v1;
          deltas = map (\<lambda>(num, idx). js_sub num (to_number (array_get v2 idx)))
                       (zip v1 [0..<length v1])
      in or_zero (array_get (filter (\<lambda>num. strict_ne num (Fin 0)) deltas) 0))"

section \<open>Resolving a user agent against the device catalog\<close>

text \<open>
  Modelled from the spec: the enumerations \<open>FormFactorType\<close>, \<open>OsVendorType\<close>,
  \<open>BrowserVendorType\<close> and \<open>BrowserVersionType\<close> of the protocol file, which is not
  among the sources. Their values are those the lookup tables of the function and the
  three version policies name.
\<close>

datatype FormFactorType = DESKTOP | MOBILE

datatype OsVendorType = ANDROID | IOS | MAC | WINDOWS

datatype BrowserVendorType = CHROME | EDGE | FIREFOX | IE | SAFARI

datatype BrowserVersionType = EXACT | PREVIOUS | LATEST

record UserAgent =
  alias' :: string
  form_factor_type :: FormFactorType
  os_vendor_type :: OsVendorType
  browser_vendor_type :: BrowserVendorType
  browser_version_type :: BrowserVersionType
  browser_version_value :: string

text \<open>
  A catalog entry. The field \<open>device\<close> of a device is its form factor and \<open>type\<close> its
  operating system; \<open>type\<close> of a browser is its vendor. The capabilities are passed
  through to the driver and never read here.
\<close>

record CbtBrowser =
  api_name :: string
  type :: string
  version :: string
  caps :: "(string \<times> string) list"

record CbtDevice =
  device :: string
  type :: string
  version :: string
  sort_order :: jsnum
  browsers :: "CbtBrowser list"
  caps :: "(string \<times> string) list"

record CbtUserAgent =
  device :: CbtDevice
  browser :: CbtBrowser

fun formFactorMap :: "FormFactorType \<Rightarrow> string list" where
  "formFactorMap DESKTOP = [''desktop'']"
| "formFactorMap MOBILE = [''mobile'']"

fun osVendorMap :: "OsVendorType \<Rightarrow> string list" where
  "osVendorMap ANDROID = [''Android'']"
| "osVendorMap IOS = [''iPhone'', ''iPad'']"
| "osVendorMap MAC = [''Mac'']"
| "osVendorMap WINDOWS = [''Windows'']"

fun browserVendorMap :: "BrowserVendorType \<Rightarrow> string list" where
  "browserVendorMap CHROME = [''Chrome'', ''Chrome Mobile'']"
| "browserVendorMap EDGE = [''Microsoft Edge'']"
| "browserVendorMap FIREFOX = [''Firefox'']"
| "browserVendorMap IE = [''Internet Explorer'']"
| "browserVendorMap SAFARI = [''Safari'', ''Mobile Safari'']"

text \<open>The set of the API names of all browsers of all devices.\<close>

definition allBrowserApiNames :: "CbtDevice list \<Rightarrow> string set" where
  "allBrowserApiNames allCbtDevices =
     fold (\<lambda>cbtDevice names.
             fold (\<lambda>cbtBrowser names. insert (api_name cbtBrowser) names)
                  (browsers cbtDevice) names)
          allCbtDevices {}"

text \<open>The two nested loops that collect the candidates, in catalog order.\<close>

definition isMatchingDevice :: "UserAgent \<Rightarrow> CbtDevice \<Rightarrow> bool" where
  "isMatchingDevice userAgent cbtDevice =
     (CbtDevice.device cbtDevice \<in> set (formFactorMap (form_factor_type userAgent)) \<and>
      CbtDevice.type cbtDevice \<in> set (osVendorMap (os_vendor_type userAgent)))"

definition matchingCbtUserAgents :: "UserAgent \<Rightarrow> CbtDevice list \<Rightarrow> CbtUserAgent list" where
  "matchingCbtUserAgents userAgent allCbtDevices =
     concat (map (\<lambda>cbtDevice.
       if \<not> isMatchingDevice userAgent cbtDevice then []
       else concat (map (\<lambda>cbtBrowser.
         if CbtBrowser.type cbtBrowser \<notin> set (browserVendorMap (browser_vendor_type userAgent))
         then []
         else if api_name cbtBrowser @ ''x64'' \<in> allBrowserApiNames allCbtDevices
         then []
         else [\<lparr>CbtUserAgent.device = cbtDevice, browser = cbtBrowser\<rparr>])
         (browsers cbtDevice)))
       allCbtDevices)"

text \<open>The comparison function handed to \<open>sort\<close>.\<close>

definition compareUserAgents :: "CbtUserAgent \<Rightarrow> CbtUserAgent \<Rightarrow> jsnum" where
  "compareUserAgents a b =
     js_or (js_or
       (compareVersions (CbtDevice.version (CbtUserAgent.device a))
                        (CbtDevice.version (CbtUserAgent.device b)))
       (compareVersions (CbtBrowser.version (browser a)) (CbtBrowser.version (browser b))))
       (js_sub (sort_order (CbtUserAgent.device a)) (sort_order (CbtUserAgent.device b)))"

text \<open>
  \<open>Array.prototype.sort\<close> with a comparison function. For a consistent comparison
  function (one that orders the elements) the language fixes the result, and since its
  2019 edition asks for a stable sort: every stable sort then returns the same array.
  For a comparison function that is not consistent the order of the result is left to
  the implementation, the result being a permutation of the array in any case. The
  model is the stable insertion sort: an element moves behind those it is greater than
  (a positive result of the comparison function) and stays in front of the others (a
  negative result, zero or \<open>NaN\<close>). What is proved below of the order of a ranked list
  is proved of every permutation of the candidates, or stated relative to the ranked
  list, or concerns a catalog on which the comparison function is consistent.
\<close>

fun insert_sorted :: "('a \<Rightarrow> 'a \<Rightarrow> jsnum) \<Rightarrow> 'a \<Rightarrow> 'a list \<Rightarrow> 'a list" where
  "insert_sorted f x [] = [x]"
| "insert_sorted f x (y # ys) =
     (if js_gt (f x y) (Fin 0) then y # insert_sorted f x ys else x # y # ys)"

definition array_sort :: "('a \<Rightarrow> 'a \<Rightarrow> jsnum) \<Rightarrow> 'a list \<Rightarrow> 'a list" where
  "array_sort f xs = foldr (insert_sorted f) xs []"

definition rankedCbtUserAgents :: "UserAgent \<Rightarrow> CbtDevice list \<Rightarrow> CbtUserAgent list" where
  "rankedCbtUserAgents userAgent allCbtDevices =
     rev (array_sort compareUserAgents (matchingCbtUserAgents userAgent allCbtDevices))"

text \<open>\<open>required.every((number, index) => number === cur[index])\<close>.\<close>

definition everySegmentEqual :: "jsnum list \<Rightarrow> jsnum list \<Rightarrow> bool" where
  "everySegmentEqual requiredBrowserVersion curBrowserVersion =
     list_all (\<lambda>(number, index).
                 case array_get curBrowserVersion index of
                   None \<Rightarrow> False
                 | Some cur \<Rightarrow> strict_eq number cur)
              (zip requiredBrowserVersion [0..<length requiredBrowserVersion])"

text \<open>
  \<open>getMatchingCbtUserAgent_\<close> (a name cannot end in an underscore here), with the
  catalog that \<open>fetchAvailableDevices\<close> resolves to as an argument. \<open>None\<close> is
  \<open>undefined\<close>.
\<close>

definition getMatchingCbtUserAgent :: "UserAgent \<Rightarrow> CbtDevice list \<Rightarrow> CbtUserAgent option" where
  "getMatchingCbtUserAgent userAgent allCbtDevices =
     (let ranked = rankedCbtUserAgents userAgent allCbtDevices in
      if browser_version_type userAgent = EXACT then
        find (\<lambda>cbtUserAgent.
                everySegmentEqual (parseVersionNumber (browser_version_value userAgent))
                                  (parseVersionNumber (CbtBrowser.version (browser cbtUserAgent))))
             ranked
      else if browser_version_type userAgent = PREVIOUS then array_get ranked 1
      else array_get ranked 0)"

section \<open>Comparing screenshots\<close>

subsection \<open>Data\<close>

record TestFile =
  public_url :: string
  relative_path :: string
  absolute_path :: string

record DiffImageResult =
  diff_image_file :: TestFile
  diff_pixel_count :: jsnum
  diff_pixel_fraction :: jsnum
  has_changed :: bool

text \<open>
  The capture states are declared in the protocol file, which is not among the sources;
  the code names \<open>DIFFED\<close> only, and the others are kept by their number.
\<close>

datatype CaptureState = DIFFED | OtherCaptureState nat

record Screenshot =
  actual_image_file :: TestFile
  expected_image_file :: TestFile
  user_agent :: UserAgent
  html_file_path :: string
  diff_image_result :: "DiffImageResult option"
  diff_image_file :: "TestFile option"
  capture_state :: CaptureState

text \<open>
  Screenshots are objects that several lists share and that the comparison updates in
  place: the lists hold references, and the store maps a reference to the object.
\<close>

type_synonym ref = nat

record ReportMeta =
  local_diff_image_base_dir :: string
  remote_upload_base_url :: string
  remote_upload_base_dir :: string

record Screenshots =
  comparable_screenshot_list :: "ref list"
  changed_screenshot_list :: "ref list"
  unchanged_screenshot_list :: "ref list"
  skipped_screenshot_list :: "ref list"
  removed_screenshot_list :: "ref list"
  added_screenshot_list :: "ref list"
  changed_screenshot_browser_map :: "string \<rightharpoonup> ref list"
  changed_screenshot_page_map :: "string \<rightharpoonup> ref list"
  unchanged_screenshot_browser_map :: "string \<rightharpoonup> ref list"
  unchanged_screenshot_page_map :: "string \<rightharpoonup> ref list"

record ReportData =
  meta :: ReportMeta
  screenshots :: Screenshots

type_synonym buffer = "nat list"

record State =
  store :: "ref \<Rightarrow> Screenshot"
  report :: ReportData
  written :: "(string \<times> buffer) list"

subsection \<open>Collaborators\<close>

text \<open>
  Reading and writing files, the pixel comparison, the image decoder and the path
  functions are libraries; the threshold comes from a configuration file. They are
  arguments of the model. A call that is rejected or throws returns an error.
\<close>

datatype error = Rejected string | TypeError string

record ResembleApiComparisonResult =
  getBuffer :: buffer
  rawMisMatchPercentage :: jsnum

record Bitmap =
  width :: jsnum
  height :: jsnum

record Env =
  readFile :: "string \<Rightarrow> error + buffer"
  compareImages :: "buffer \<Rightarrow> buffer \<Rightarrow> error + ResembleApiComparisonResult"
  Jimp_read :: "buffer \<Rightarrow> error + Bitmap"
  mkdirp_sync :: "string \<Rightarrow> error option"
  writeFile :: "string \<Rightarrow> buffer \<Rightarrow> error option"
  path_join :: "string \<Rightarrow> string \<Rightarrow> string"
  path_dirname :: "string \<Rightarrow> string"
  min_diff_pixel_count :: jsnum

text \<open>Sequencing of calls that may fail: the first error ends the function.\<close>

definition and_then :: "error + 'a \<Rightarrow> ('a \<Rightarrow> error + 'b) \<Rightarrow> error + 'b" where
  "and_then r f = (case r of Inl e \<Rightarrow> Inl e | Inr x \<Rightarrow> f x)"

subsection \<open>One image\<close>

definition computeDiff ::
  "Env \<Rightarrow> buffer \<Rightarrow> buffer \<Rightarrow> error + ResembleApiComparisonResult" where
  "computeDiff env actualImageBuffer expectedImageBuffer =
     compareImages env actualImageBuffer expectedImageBuffer"

definition createDiffImageFile :: "Env \<Rightarrow> ReportMeta \<Rightarrow> TestFile \<Rightarrow> TestFile" where
  "createDiffImageFile env reportMeta actualImageFile =
     (let diffImageRelativePath =
            replace False (Seq (lit ''.png'') Eol) ''.diff.png'' (relative_path actualImageFile);
          diffImageAbsolutePath =
            path_join env (local_diff_image_base_dir reportMeta) diffImageRelativePath;
          diffImagePublicUrl =
            remote_upload_base_url reportMeta @ remote_upload_base_dir reportMeta @
            diffImageRelativePath
      in \<lparr>public_url = diffImagePublicUrl,
          relative_path = diffImageRelativePath,
          absolute_path = diffImageAbsolutePath\<rparr>)"

definition analyzeComparisonResult ::
  "Env \<Rightarrow> ResembleApiComparisonResult \<Rightarrow> error + (buffer \<times> jsnum \<times> jsnum)" where
  "analyzeComparisonResult env resembleComparisonResult =
     (let diffImageBuffer = getBuffer resembleComparisonResult in
      and_then (Jimp_read env diffImageBuffer) (\<lambda>bitmap.
        let diffPixelFraction = rawMisMatchPercentage resembleComparisonResult;
            diffPixelCount = js_mul (js_mul diffPixelFraction (width bitmap)) (height bitmap)
        in Inr (diffImageBuffer, diffPixelFraction, diffPixelCount)))"

text \<open>
  \<open>compareOneImage\<close> returns the result together with the file it has written (path
  and contents).
\<close>

definition compareOneImage ::
  "Env \<Rightarrow> ReportData \<Rightarrow> TestFile \<Rightarrow> TestFile \<Rightarrow> error + (DiffImageResult \<times> (string \<times> buffer))" where
  "compareOneImage env reportData actualImageFile expectedImageFile =
     (let reportMeta = meta reportData in
      and_then (readFile env (absolute_path actualImageFile)) (\<lambda>actualImageBuffer.
      and_then (readFile env (absolute_path expectedImageFile)) (\<lambda>expectedImageBuffer.
      and_then (computeDiff env actualImageBuffer expectedImageBuffer) (\<lambda>resembleComparisonResult.
        let diffImageFile = createDiffImageFile env reportMeta actualImageFile in
        and_then (analyzeComparisonResult env resembleComparisonResult)
          (\<lambda>(diffImageBuffer, diffPixelFraction, diffPixelCount).
             case mkdirp_sync env (path_dirname env (absolute_path diffImageFile)) of
               Some e \<Rightarrow> Inl e
             | None \<Rightarrow>
                (case writeFile env (absolute_path diffImageFile) diffImageBuffer of
                   Some e \<Rightarrow> Inl e
                 | None \<Rightarrow>
                     Inr (\<lparr>DiffImageResult.diff_image_file = diffImageFile,
                           diff_pixel_count = diffPixelCount,
                           diff_pixel_fraction = diffPixelFraction,
                           has_changed = js_ge diffPixelCount (min_diff_pixel_count env)\<rparr>,
                          (absolute_path diffImageFile, diffImageBuffer))))))))"

subsection \<open>All screenshots\<close>

text \<open>
  \<open>compareOneScreenshot_\<close>: the part after the \<open>await\<close> runs without interruption, so
  one call is one step on the state.
\<close>

definition compareOneScreenshot :: "Env \<Rightarrow> ref \<Rightarrow> State \<Rightarrow> error + State" where
  "compareOneScreenshot env screenshot st =
     and_then (compareOneImage env (report st)
                 (actual_image_file (store st screenshot))
                 (expected_image_file (store st screenshot)))
       (\<lambda>(diffImageResult, file).
          let st1 = st\<lparr>written := written st @ [file],
                       store := (store st)(screenshot :=
                         (store st screenshot)\<lparr>
                            diff_image_result := Some diffImageResult,
                            Screenshot.diff_image_file :=
                              Some (DiffImageResult.diff_image_file diffImageResult),
                            capture_state := DIFFED\<rparr>)\<rparr>;
              lists = screenshots (report st1)
          in if has_changed diffImageResult
             then Inr (st1\<lparr>report := (report st1)\<lparr>screenshots :=
                    lists\<lparr>changed_screenshot_list :=
                            changed_screenshot_list lists @ [screenshot]\<rparr>\<rparr>\<rparr>)
             else Inr (st1\<lparr>report := (report st1)\<lparr>screenshots :=
                    lists\<lparr>unchanged_screenshot_list :=
                            unchanged_screenshot_list lists @ [screenshot]\<rparr>\<rparr>\<rparr>))"

text \<open>
  The maps are plain objects created with \<open>{}\<close>. Reading a key that the prototype of
  every object defines gives that inherited value, which has no \<open>screenshots\<close>: the
  \<open>push\<close> then throws.
\<close>

definition object_prototype_keys :: "string list" where
  "object_prototype_keys =
     [''constructor'', ''__defineGetter__'', ''__defineSetter__'', ''hasOwnProperty'',
      ''__lookupGetter__'', ''__lookupSetter__'', ''isPrototypeOf'', ''propertyIsEnumerable'',
      ''toString'', ''valueOf'', ''__proto__'', ''toLocaleString'']"

fun forEach :: "('a \<Rightarrow> 's \<Rightarrow> error + 's) \<Rightarrow> 'a list \<Rightarrow> 's \<Rightarrow> error + 's" where
  "forEach f [] s = Inr s"
| "forEach f (x # xs) s = and_then (f x s) (forEach f xs)"

definition groupByBrowser ::
  "(ref \<Rightarrow> Screenshot) \<Rightarrow> ref list \<Rightarrow> error + (string \<rightharpoonup> ref list)" where
  "groupByBrowser heap screenshotArray =
     forEach (\<lambda>screenshot browserMap.
                let userAgentAlias = alias' (user_agent (heap screenshot)) in
                case browserMap userAgentAlias of
                  Some list \<Rightarrow> Inr (browserMap(userAgentAlias \<mapsto> list @ [screenshot]))
                | None \<Rightarrow>
                    if userAgentAlias \<in> set object_prototype_keys
                    then Inl (TypeError ''Cannot read property push of undefined'')
                    else Inr (browserMap(userAgentAlias \<mapsto> [screenshot])))
             screenshotArray Map.empty"

definition groupByPage ::
  "(ref \<Rightarrow> Screenshot) \<Rightarrow> ref list \<Rightarrow> error + (string \<rightharpoonup> ref list)" where
  "groupByPage heap screenshotArray =
     forEach (\<lambda>screenshot pageMap.
                let htmlFilePath = html_file_path (heap screenshot) in
                case pageMap htmlFilePath of
                  Some list \<Rightarrow> Inr (pageMap(htmlFilePath \<mapsto> list @ [screenshot]))
                | None \<Rightarrow>
                    if htmlFilePath \<in> set object_prototype_keys
                    then Inl (TypeError ''Cannot read property push of undefined'')
                    else Inr (pageMap(htmlFilePath \<mapsto> [screenshot])))
             screenshotArray Map.empty"

text \<open>
  \<open>compareAllScreenshots\<close> starts one comparison for each screenshot and waits for all
  of them. The comparisons finish in an order that the program does not fix: the
  argument \<open>order\<close> lists the indices of the screenshots in the order in which their
  comparisons finish. When one fails the function is rejected with that error (the others
  still run, which the model does not follow). The lines written to the console are left
  out.
\<close>

definition compareAllScreenshots :: "Env \<Rightarrow> nat list \<Rightarrow> State \<Rightarrow> error + State" where
  "compareAllScreenshots env order st =
     (let screenshots = comparable_screenshot_list (ReportData.screenshots (report st)) in
      and_then (forEach (compareOneScreenshot env) (map (\<lambda>i. screenshots ! i) order) st) (\<lambda>st.
      and_then (groupByBrowser (store st)
                  (changed_screenshot_list (ReportData.screenshots (report st)))) (\<lambda>cb.
      and_then (groupByPage (store st)
                  (changed_screenshot_list (ReportData.screenshots (report st)))) (\<lambda>cp.
      and_then (groupByBrowser (store st)
                  (unchanged_screenshot_list (ReportData.screenshots (report st)))) (\<lambda>ub.
      and_then (groupByPage (store st)
                  (unchanged_screenshot_list (ReportData.screenshots (report st)))) (\<lambda>up.
        Inr (st\<lparr>report := (report st)\<lparr>screenshots :=
               (ReportData.screenshots (report st))\<lparr>
                  changed_screenshot_browser_map := cb,
                  changed_screenshot_page_map := cp,
                  unchanged_screenshot_browser_map := ub,
                  unchanged_screenshot_page_map := up\<rparr>\<rparr>\<rparr>)))))))"

section \<open>Example inputs\<close>

text \<open>
  Collaborators that always succeed: the comparison reports the given fraction, the
  decoder the given width and height.
\<close>

definition example_env :: "jsnum \<Rightarrow> jsnum \<Rightarrow> jsnum \<Rightarrow> jsnum \<Rightarrow> Env" where
  "example_env fraction w h threshold =
     \<lparr>readFile = (\<lambda>path. Inr []),
      compareImages = (\<lambda>a b. Inr \<lparr>getBuffer = [], rawMisMatchPercentage = fraction\<rparr>),
      Jimp_read = (\<lambda>b. Inr \<lparr>width = w, height = h\<rparr>),
      mkdirp_sync = (\<lambda>dir. None),
      writeFile = (\<lambda>path b. None),
      path_join = (\<lambda>a b. a @ ''/'' @ b),
      path_dirname = (\<lambda>p. p),
      min_diff_pixel_count = threshold\<rparr>"

definition example_report :: ReportData where
  "example_report =
     \<lparr>meta = \<lparr>local_diff_image_base_dir = ''d'', remote_upload_base_url = ''u'',
               remote_upload_base_dir = ''/''\<rparr>,
      screenshots = \<lparr>comparable_screenshot_list = [0, 1],
        changed_screenshot_list = [], unchanged_screenshot_list = [],
        skipped_screenshot_list = [], removed_screenshot_list = [], added_screenshot_list = [],
        changed_screenshot_browser_map = Map.empty, changed_screenshot_page_map = Map.empty,
        unchanged_screenshot_browser_map = Map.empty,
        unchanged_screenshot_page_map = Map.empty\<rparr>\<rparr>"

definition example_file :: "string \<Rightarrow> TestFile" where
  "example_file name =
     \<lparr>public_url = ''u/'' @ name, relative_path = name, absolute_path = ''/'' @ name\<rparr>"

text \<open>Predicates on numbers used to state the claims.\<close>

definition is_nonneg :: "jsnum \<Rightarrow> bool" where
  "is_nonneg x = (case x of Fin q \<Rightarrow> 0 \<le> q | _ \<Rightarrow> False)"

definition is_nonneg_integer :: "jsnum \<Rightarrow> bool" where
  "is_nonneg_integer x = (case x of Fin q \<Rightarrow> 0 \<le> q \<and> of_int \<lfloor>q\<rfloor> = q | _ \<Rightarrow> False)"

section \<open>Notions used to state and prove the properties of the version comparison\<close>

text \<open>
  \<open>x || 0\<close> on a number; an array with every \<open>NaN\<close> replaced by zero; the value of
  \<open>deltas.filter((num) => num !== 0)[0] || 0\<close>; and the array of deltas that
  \<open>compareVersions\<close> arrives at, as an expression of the two parsed arrays.
\<close>

definition zero_falsy :: "jsnum \<Rightarrow> jsnum" where
  "zero_falsy x = js_or x (Fin 0)"

definition zero_nan :: "jsnum list \<Rightarrow> jsnum list" where
  "zero_nan v = map (\<lambda>x. if x = NaN then Fin 0 else x) v"

definition first_nonzero :: "jsnum list \<Rightarrow> jsnum" where
  "first_nonzero deltas = or_zero (array_get (filter (\<lambda>num. strict_ne num (Fin 0)) deltas) 0)"

definition padded_deltas :: "jsnum list \<Rightarrow> jsnum list \<Rightarrow> jsnum list" where
  "padded_deltas v1 v2 =
     map (\<lambda>(a, b). js_sub a b)
       (zip (map zero_falsy v1 @ replicate (length v2 - length v1) (Fin 0))
            (map zero_falsy (take (length v1) v2) @ replicate (length v1 - length v2) (Fin 0) @
             drop (length v1) v2))"

text \<open>A version string is normalizable when each of its segments parses to a number.\<close>

definition normalizable :: "string \<Rightarrow> bool" where
  "normalizable v = (NaN \<notin> set (parseVersionNumber v))"

section \<open>Notions used to state the properties of the ranking\<close>

text \<open>
  \<open>ranked_before a b\<close> says that \<open>a\<close> is not below \<open>b\<close> when \<open>a\<close> is compared with
  \<open>b\<close>: greater by the device version, or equal there and greater by the browser
  version, or equal there too and not smaller by the sort order. \<open>ranked_behind b a\<close>
  says that \<open>b\<close> is not above \<open>a\<close> when \<open>b\<close> is compared with \<open>a\<close>: smaller by the
  device version, or equal there and smaller by the browser version, or equal there too
  and not greater by the sort order. A ranked list is descending when each element
  stands in such a relation with every later one; the two readings agree when
  \<open>compareVersions\<close> gives opposite results for swapped arguments.
\<close>

definition ranked_before :: "CbtUserAgent \<Rightarrow> CbtUserAgent \<Rightarrow> bool" where
  "ranked_before a b =
     (let byDevice = compareVersions (CbtDevice.version (CbtUserAgent.device a))
                                     (CbtDevice.version (CbtUserAgent.device b));
          byBrowser = compareVersions (CbtBrowser.version (browser a))
                                      (CbtBrowser.version (browser b))
      in js_gt byDevice (Fin 0) \<or>
         byDevice = Fin 0 \<and>
           (js_gt byBrowser (Fin 0) \<or>
            byBrowser = Fin 0 \<and>
              js_ge (sort_order (CbtUserAgent.device a)) (sort_order (CbtUserAgent.device b))))"

definition ranked_behind :: "CbtUserAgent \<Rightarrow> CbtUserAgent \<Rightarrow> bool" where
  "ranked_behind b a =
     (let byDevice = compareVersions (CbtDevice.version (CbtUserAgent.device b))
                                     (CbtDevice.version (CbtUserAgent.device a));
          byBrowser = compareVersions (CbtBrowser.version (browser b))
                                      (CbtBrowser.version (browser a))
      in js_lt byDevice (Fin 0) \<or>
         byDevice = Fin 0 \<and>
           (js_lt byBrowser (Fin 0) \<or>
            byBrowser = Fin 0 \<and>
              js_ge (sort_order (CbtUserAgent.device a)) (sort_order (CbtUserAgent.device b))))"

text \<open>A small catalog: two Windows desktops, Chrome in three builds.\<close>

definition example_browser :: "string \<Rightarrow> string \<Rightarrow> CbtBrowser" where
  "example_browser name v = \<lparr>api_name = name, type = ''Chrome'', version = v, caps = []\<rparr>"

definition example_win7 :: CbtDevice where
  "example_win7 =
     \<lparr>CbtDevice.device = ''desktop'', type = ''Windows'', version = ''Windows 7 64-bit'',
      sort_order = Fin 1,
      browsers = [example_browser ''Chrome63'' ''63.0.1'', example_browser ''Chrome63x64'' ''63.0.1'',
                  example_browser ''Chrome64x64'' ''64.0.3282''],
      caps = []\<rparr>"

definition example_win10 :: CbtDevice where
  "example_win10 =
     \<lparr>CbtDevice.device = ''desktop'', type = ''Windows'', version = ''Windows 10'',
      sort_order = Fin 2,
      browsers = [example_browser ''Chrome64x64'' ''64.0.3282''],
      caps = []\<rparr>"

definition example_catalog :: "CbtDevice list" where
  "example_catalog = [example_win7, example_win10]"

definition example_userAgent :: "BrowserVersionType \<Rightarrow> string \<Rightarrow> UserAgent" where
  "example_userAgent policy v =
     \<lparr>alias' = ''desktop_windows_chrome'', form_factor_type = DESKTOP,
      os_vendor_type = WINDOWS, browser_vendor_type = CHROME,
      browser_version_type = policy, browser_version_value = v\<rparr>"

definition example_candidate :: "CbtDevice \<Rightarrow> string \<Rightarrow> string \<Rightarrow> CbtUserAgent" where
  "example_candidate d name v = \<lparr>CbtUserAgent.device = d, browser = example_browser name v\<rparr>"

text \<open>
  A catalog of four Windows desktops with the same browser. Two of the versions have a
  segment that is not a number, followed by a numeric one.
\<close>

definition example_device :: "string \<Rightarrow> jsnum \<Rightarrow> CbtDevice" where
  "example_device v order =
     \<lparr>CbtDevice.device = ''desktop'', type = ''Windows'', version = v, sort_order = order,
      browsers = [example_browser ''Chrome64x64'' ''64''], caps = []\<rparr>"

definition example_mixed_catalog :: "CbtDevice list" where
  "example_mixed_catalog =
     [example_device ''6'' (Fin 1), example_device ''6.x.1'' (Fin 1),
      example_device ''6.x.-1'' (Fin 2), example_device ''6'' (Fin 2)]"

definition example_mixed :: "string \<Rightarrow> jsnum \<Rightarrow> CbtUserAgent" where
  "example_mixed v order = example_candidate (example_device v order) ''Chrome64x64'' ''64''"

section \<open>Notions used to state and prove the properties of the screenshot comparison\<close>

text \<open>The three lists of a state.\<close>

definition changed_list :: "State \<Rightarrow> ref list" where
  "changed_list st = changed_screenshot_list (ReportData.screenshots (report st))"

definition unchanged_list :: "State \<Rightarrow> ref list" where
  "unchanged_list st = unchanged_screenshot_list (ReportData.screenshots (report st))"

definition comparable_list :: "State \<Rightarrow> ref list" where
  "comparable_list st = comparable_screenshot_list (ReportData.screenshots (report st))"

text \<open>The diff result that the comparison of a screenshot produces, if it succeeds.\<close>

definition verdict :: "Env \<Rightarrow> State \<Rightarrow> ref \<Rightarrow> error + (DiffImageResult \<times> (string \<times> buffer))" where
  "verdict env st r =
     compareOneImage env (report st) (actual_image_file (store st r))
       (expected_image_file (store st r))"

definition changes :: "Env \<Rightarrow> State \<Rightarrow> ref \<Rightarrow> bool" where
  "changes env st r = (case verdict env st r of Inl e \<Rightarrow> False | Inr (d, f) \<Rightarrow> has_changed d)"

text \<open>The step of the two grouping functions, for any key.\<close>

definition group_step :: "(ref \<Rightarrow> string) \<Rightarrow> ref \<Rightarrow> (string \<rightharpoonup> ref list) \<Rightarrow> error + (string \<rightharpoonup> ref list)" where
  "group_step key x m =
     (case m (key x) of
        Some list \<Rightarrow> Inr (m(key x \<mapsto> list @ [x]))
      | None \<Rightarrow>
          if key x \<in> set object_prototype_keys
          then Inl (TypeError ''Cannot read property push of undefined'')
          else Inr (m(key x \<mapsto> [x])))"

text \<open>
  Two screenshots of one page in one browser, compared with the same golden image: the
  first is that image, the second another file. The comparison reports no difference for
  equal files and a full difference otherwise, on an image of ten by ten pixels.
\<close>

definition example_env_files :: Env where
  "example_env_files =
     \<lparr>readFile = (\<lambda>path. Inr (map of_char path)),
      compareImages = (\<lambda>a b. Inr \<lparr>getBuffer = a,
                                   rawMisMatchPercentage = (if a = b then Fin 0 else Fin 1)\<rparr>),
      Jimp_read = (\<lambda>b. Inr \<lparr>width = Fin 10, height = Fin 10\<rparr>),
      mkdirp_sync = (\<lambda>dir. None),
      writeFile = (\<lambda>path b. None),
      path_join = (\<lambda>a b. a @ ''/'' @ b),
      path_dirname = (\<lambda>p. p),
      min_diff_pixel_count = Fin 3\<rparr>"

definition example_screenshot :: "string \<Rightarrow> Screenshot" where
  "example_screenshot name =
     \<lparr>actual_image_file = example_file name,
      expected_image_file = example_file ''golden.png'',
      user_agent = example_userAgent LATEST [],
      html_file_path = ''page.html'',
      diff_image_result = None,
      diff_image_file = None,
      capture_state = OtherCaptureState 0\<rparr>"

definition example_state :: State where
  "example_state =
     \<lparr>store = (\<lambda>r. if r = 0 then example_screenshot ''golden.png''
                     else example_screenshot ''new.png''),
      report = example_report,
      written = []\<rparr>"

section \<open>Rounding\<close>

text \<open>
  Rounding keeps zero, commutes with the sign, never gives \<open>NaN\<close>, gives a
  non-negative number or infinity for a non-negative rational, and keeps every integer
  below \<open>2^53\<close> in magnitude: on such integers the arithmetic is exact.
\<close>

lemma pow2_pos: "0 < pow2 k"
  by (simp add: pow2_def)

lemma round_double_0 [simp]: "round_double 0 = Fin 0"
  by (simp add: round_double_def)

lemma round_double_not_NaN [simp]: "round_double q \<noteq> NaN"
  by (simp add: round_double_def split: option.splits)

lemma round_double_minus: "round_double (- q) = js_neg (round_double q)"
  by (cases "round_magnitude \<bar>q\<bar>") (auto simp: round_double_def)

lemma round_half_even_of_int: "round_half_even (of_int m) = m"
  by (simp add: round_half_even_def)

lemma round_half_even_nonneg: "0 \<le> x \<Longrightarrow> 0 \<le> round_half_even x"
  by (auto simp: round_half_even_def Let_def)

lemma floor_log2_of_int_le:
  assumes "0 < m" "m < 2 ^ 53"
  shows "floor_log2 (of_int m) \<le> 52"
proof -
  have "bitlen m \<le> 53"
    using assms by (simp add: bitlen_le_iff_power)
  moreover have "bitlen 1 = 1"
    by (simp add: bitlen_alt_def)
  ultimately show ?thesis
    by (simp add: floor_log2_def Let_def)
qed

lemma round_magnitude_of_int:
  assumes a: "0 < a" "a < 2 ^ 53"
  shows "round_magnitude (of_int a) = Some (of_int a)"
proof -
  define e where "e = max (floor_log2 (of_int a)) (- 1022)"
  have e: "e \<le> 52"
    using floor_log2_of_int_le [OF a] by (simp add: e_def)
  define d where "d = nat (52 - e)"
  have ulp: "pow2 (e - 52) = 1 / 2 ^ d"
    using e by (cases "e = 52") (simp_all add: pow2_def d_def)
  have q: "of_int a / pow2 (e - 52) = (of_int (a * 2 ^ d) :: rat)"
    by (simp add: ulp)
  have n: "round_half_even (of_int a / pow2 (e - 52)) = a * 2 ^ d"
    unfolding q by (rule round_half_even_of_int)
  have again: "(of_int (a * 2 ^ d) :: rat) * pow2 (e - 52) = of_int a"
    by (simp add: ulp)
  show ?thesis
    unfolding round_magnitude_def Let_def e_def [symmetric] n again
    using e by simp
qed

lemma round_double_of_int:
  assumes "\<bar>m\<bar> < 2 ^ 53"
  shows "round_double (of_int m) = Fin (of_int m)"
proof (cases "m = 0")
  case True
  then show ?thesis by simp
next
  case False
  have "round_magnitude (of_int \<bar>m\<bar>) = Some (of_int \<bar>m\<bar>)"
    using False assms by (intro round_magnitude_of_int) simp_all
  then have "round_magnitude \<bar>of_int m\<bar> = Some \<bar>of_int m\<bar>"
    by simp
  then show ?thesis
    using False by (auto simp: round_double_def)
qed

lemma round_double_numeral [simp]:
  "(numeral k :: int) < 9007199254740992 \<Longrightarrow> round_double (numeral k) = Fin (numeral k)"
  "(numeral k :: int) < 9007199254740992 \<Longrightarrow> round_double (- numeral k) = Fin (- numeral k)"
  "round_double 1 = Fin 1"
  "round_double (- 1) = Fin (- 1)"
  using round_double_of_int [of "numeral k"] round_double_of_int [of "- numeral k"]
    round_double_of_int [of 1] round_double_of_int [of "- 1"]
  by simp_all

lemma round_magnitude_nonneg:
  assumes "0 \<le> a" "round_magnitude a = Some r"
  shows "0 \<le> r"
proof -
  have "0 \<le> round_half_even (a / pow2 k)" for k
    by (rule round_half_even_nonneg) (use assms(1) pow2_pos [of k] in simp)
  then show ?thesis
    using assms(2) pow2_pos
    by (auto simp: round_magnitude_def Let_def less_imp_le split: if_splits)
qed

lemma round_double_nonneg:
  assumes "0 \<le> q"
  shows "round_double q = PosInf \<or> (\<exists>r\<ge>0. round_double q = Fin r)"
proof (cases "q = 0")
  case True
  then show ?thesis by simp
next
  case False
  then have pos: "0 < q" using assms by simp
  show ?thesis
  proof (cases "round_magnitude \<bar>q\<bar>")
    case None
    then show ?thesis using pos by (simp add: round_double_def)
  next
    case (Some r)
    have "0 \<le> r" by (rule round_magnitude_nonneg [OF _ Some]) simp
    then show ?thesis using pos Some by (simp add: round_double_def)
  qed
qed


section \<open>The diff result of one image\<close>

lemma and_then_Inr: "and_then r f = Inr y \<longleftrightarrow> (\<exists>x. r = Inr x \<and> f x = Inr y)"
  by (cases r) (simp_all add: and_then_def)

lemma js_ge_Fin: "js_ge (Fin x) (Fin y) = (y \<le> x)"
  by (auto simp: js_ge_def strict_eq_def)

lemma example_diff:
  "compareOneImage (example_env f w h t) example_report
     (example_file ''a.png'') (example_file ''e.png'') =
   Inr (\<lparr>DiffImageResult.diff_image_file =
           \<lparr>public_url = ''u/a.diff.png'', relative_path = ''a.diff.png'',
              absolute_path = ''d/a.diff.png''\<rparr>,
         diff_pixel_count = js_mul (js_mul f w) h,
         diff_pixel_fraction = f,
         has_changed = js_ge (js_mul (js_mul f w) h) t\<rparr>,
        (''d/a.diff.png'', []))"
  by (simp add: compareOneImage_def example_env_def example_report_def example_file_def
      and_then_def computeDiff_def analyzeComparisonResult_def createDiffImageFile_def
      replace_def canonicalize_def Let_def)

text \<open>
  C1. Whenever \<open>compareOneImage\<close> produces a diff result, \<open>has_changed\<close> is true exactly
  when \<open>diff_pixel_count >= min_diff_pixel_count\<close>; the fraction takes no part in the
  decision. For finite numbers \<open>>=\<close> is the order of the numbers.
\<close>

theorem compareOneImage_has_changed:
  "compareOneImage env reportData actualImageFile expectedImageFile = Inr (r, file) \<Longrightarrow>
     (has_changed r \<longleftrightarrow> js_ge (diff_pixel_count r) (min_diff_pixel_count env)) \<and>
     (\<forall>c m. diff_pixel_count r = Fin c \<and> min_diff_pixel_count env = Fin m \<longrightarrow>
        (has_changed r \<longleftrightarrow> m \<le> c))"
  unfolding compareOneImage_def Let_def
  by (auto simp: and_then_Inr js_ge_Fin split: option.splits)

lemma example_products:
  "js_mul (js_mul (round_double (1 / 20)) (Fin 10)) (Fin 10) = Fin 5"
  "js_mul (js_mul (round_double (7 / 100)) (Fin 10)) (Fin 10) =
     Fin (7881299347898369 / 1125899906842624)"
  by code_simp+

lemma example_fractions:
  "round_double (1 / 20) = Fin (3602879701896397 / 72057594037927936)"
  "round_double (7 / 100) = Fin (1261007895663739 / 18014398509481984)"
  by code_simp+

text \<open>
  Five pixels of a hundred differ and the threshold is three. The fraction is the double
  nearest to 0.05; the result exists, its count is 5 and it has changed.
\<close>

theorem compareOneImage_has_changed_witness:
  "compareOneImage (example_env (round_double (1 / 20)) (Fin 10) (Fin 10) (Fin 3)) example_report
     (example_file ''a.png'') (example_file ''e.png'') =
   Inr (\<lparr>DiffImageResult.diff_image_file =
           \<lparr>public_url = ''u/a.diff.png'', relative_path = ''a.diff.png'',
              absolute_path = ''d/a.diff.png''\<rparr>,
         diff_pixel_count = Fin 5,
         diff_pixel_fraction = round_double (1 / 20),
         has_changed = True\<rparr>,
        (''d/a.diff.png'', [])) \<and>
   js_ge (Fin 5) (min_diff_pixel_count (example_env (round_double (1 / 20)) (Fin 10) (Fin 10) (Fin 3)))"
proof -
  have run: "compareOneImage (example_env (round_double (1 / 20)) (Fin 10) (Fin 10) (Fin 3)) example_report
     (example_file ''a.png'') (example_file ''e.png'') =
   Inr (\<lparr>DiffImageResult.diff_image_file =
           \<lparr>public_url = ''u/a.diff.png'', relative_path = ''a.diff.png'',
              absolute_path = ''d/a.diff.png''\<rparr>,
         diff_pixel_count = Fin 5,
         diff_pixel_fraction = round_double (1 / 20),
         has_changed = True\<rparr>,
        (''d/a.diff.png'', []))"
    by (simp add: example_diff example_products js_ge_Fin)
  from compareOneImage_has_changed [OF run] show ?thesis
    using run by simp
qed

lemma count_not_integer: "\<not> is_nonneg_integer (Fin (7881299347898369 / 1125899906842624))"
  by code_simp

text \<open>
  C9, as stated, fails. Seven pixels of a hundred differ: the comparison reports the
  fraction 0.07, the double nearest to 7/100, the image is ten by ten pixels, and the
  count \<open>0.07 * 10 * 10\<close> is the double 7.000000000000001, which is not an integer.
\<close>

theorem diff_pixel_count_integer_counterexample:
  "map_sum id (diff_pixel_count \<circ> fst)
     (compareOneImage (example_env (round_double (7 / 100)) (Fin 10) (Fin 10) (Fin 3)) example_report
        (example_file ''a.png'') (example_file ''e.png'')) =
     Inr (Fin (7881299347898369 / 1125899906842624)) \<and>
   \<not> is_nonneg_integer (Fin (7881299347898369 / 1125899906842624)) \<and>
   round_double (7 / 100) = Fin (1261007895663739 / 18014398509481984)"
  by (simp add: example_diff example_products count_not_integer example_fractions(2) [symmetric])

lemma js_mul_nonneg:
  assumes "is_nonneg a" "is_nonneg b"
  shows "js_mul a b = PosInf \<or> is_nonneg (js_mul a b)"
proof -
  obtain x y where xy: "a = Fin x" "b = Fin y" "0 \<le> x" "0 \<le> y"
    using assms by (cases a; cases b) (simp_all add: is_nonneg_def)
  then have "0 \<le> x * y" by simp
  from round_double_nonneg [OF this] show ?thesis
    by (auto simp: xy is_nonneg_def)
qed

lemma count_not_negative:
  assumes "is_nonneg f" "is_nonneg w" "is_nonneg h"
  shows "\<not> js_lt (js_mul (js_mul f w) h) (Fin 0) \<and>
         (\<forall>c. js_mul (js_mul f w) h = Fin c \<longrightarrow> 0 \<le> c)"
proof -
  obtain y where h: "h = Fin y" "0 \<le> y"
    using assms(3) by (cases h) (simp_all add: is_nonneg_def)
  from js_mul_nonneg [OF assms(1,2)] consider "js_mul f w = PosInf" | "is_nonneg (js_mul f w)"
    by blast
  then show ?thesis
  proof cases
    case 1
    then show ?thesis by (cases "y = 0") (use h in auto)
  next
    case 2
    from js_mul_nonneg [OF this assms(3)] show ?thesis
      by (cases "js_mul (js_mul f w) h") (auto simp: is_nonneg_def)
  qed
qed

text \<open>
  C9, amended. The count of a diff result is the product of the fraction, the width and
  the height of the decoded diff image as the two multiplications of doubles give it,
  each rounded to the nearest double: it is not rounded to an integer, and need not be
  one. It is never negative when the fraction, the width and the height are
  non-negative finite numbers.
\<close>

theorem diff_pixel_count_product:
  "compareOneImage env reportData actualImageFile expectedImageFile = Inr (r, file) \<Longrightarrow>
     \<exists>bitmap. Jimp_read env (snd file) = Inr bitmap \<and>
       diff_pixel_count r =
         js_mul (js_mul (diff_pixel_fraction r) (width bitmap)) (height bitmap) \<and>
       (is_nonneg (diff_pixel_fraction r) \<and> is_nonneg (width bitmap) \<and>
        is_nonneg (height bitmap) \<longrightarrow>
          \<not> js_lt (diff_pixel_count r) (Fin 0) \<and>
          (\<forall>c. diff_pixel_count r = Fin c \<longrightarrow> 0 \<le> c))"
proof -
  assume "compareOneImage env reportData actualImageFile expectedImageFile = Inr (r, file)"
  then obtain bitmap where b: "Jimp_read env (snd file) = Inr bitmap"
    and c: "diff_pixel_count r =
         js_mul (js_mul (diff_pixel_fraction r) (width bitmap)) (height bitmap)"
    unfolding compareOneImage_def analyzeComparisonResult_def Let_def
    by (auto simp: and_then_Inr split: option.splits)
  have "\<not> js_lt (diff_pixel_count r) (Fin 0) \<and> (\<forall>c. diff_pixel_count r = Fin c \<longrightarrow> 0 \<le> c)"
    if "is_nonneg (diff_pixel_fraction r)" "is_nonneg (width bitmap)" "is_nonneg (height bitmap)"
    unfolding c by (rule count_not_negative [OF that])
  with b c show ?thesis by blast
qed

text \<open>
  With the fraction 0.07 on ten by ten pixels the count is the product of the three
  doubles, 7.000000000000001, and it is not negative.
\<close>

theorem diff_pixel_count_product_witness:
  "compareOneImage (example_env (round_double (7 / 100)) (Fin 10) (Fin 10) (Fin 3)) example_report
     (example_file ''a.png'') (example_file ''e.png'') =
   Inr (\<lparr>DiffImageResult.diff_image_file =
           \<lparr>public_url = ''u/a.diff.png'', relative_path = ''a.diff.png'',
              absolute_path = ''d/a.diff.png''\<rparr>,
         diff_pixel_count = Fin (7881299347898369 / 1125899906842624),
         diff_pixel_fraction = round_double (7 / 100),
         has_changed = True\<rparr>,
        (''d/a.diff.png'', [])) \<and>
   is_nonneg (round_double (7 / 100)) \<and> is_nonneg (Fin 10) \<and>
   (\<exists>bitmap. Jimp_read (example_env (round_double (7 / 100)) (Fin 10) (Fin 10) (Fin 3)) [] =
               Inr bitmap \<and>
      Fin (7881299347898369 / 1125899906842624) =
        js_mul (js_mul (round_double (7 / 100)) (width bitmap)) (height bitmap)) \<and>
   \<not> js_lt (Fin (7881299347898369 / 1125899906842624)) (Fin 0)"
proof -
  have run: "compareOneImage (example_env (round_double (7 / 100)) (Fin 10) (Fin 10) (Fin 3)) example_report
     (example_file ''a.png'') (example_file ''e.png'') =
   Inr (\<lparr>DiffImageResult.diff_image_file =
           \<lparr>public_url = ''u/a.diff.png'', relative_path = ''a.diff.png'',
              absolute_path = ''d/a.diff.png''\<rparr>,
         diff_pixel_count = Fin (7881299347898369 / 1125899906842624),
         diff_pixel_fraction = round_double (7 / 100),
         has_changed = True\<rparr>,
        (''d/a.diff.png'', []))"
    by (simp add: example_diff example_products js_ge_Fin)
  have nn: "is_nonneg (round_double (7 / 100))" "is_nonneg (Fin 10)"
    by (simp_all add: example_fractions is_nonneg_def)
  from diff_pixel_count_product [OF run]
  have ex: "\<exists>bitmap. Jimp_read (example_env (round_double (7 / 100)) (Fin 10) (Fin 10) (Fin 3)) [] =
               Inr bitmap \<and>
      Fin (7881299347898369 / 1125899906842624) =
        js_mul (js_mul (round_double (7 / 100)) (width bitmap)) (height bitmap)"
    by auto
  have "\<not> js_lt (Fin (7881299347898369 / 1125899906842624)) (Fin 0)"
    by simp
  with ex show ?thesis
    using run nn by blast
qed

section \<open>Comparing versions\<close>

subsection \<open>The padding and the deltas\<close>

lemma zero_falsy_simps [simp]:
  "zero_falsy NaN = Fin 0" "zero_falsy (Fin x) = Fin x"
  "zero_falsy PosInf = PosInf" "zero_falsy NegInf = NegInf"
  by (simp_all add: zero_falsy_def js_or_def)

lemma or_zero_simps [simp]:
  "or_zero None = Fin 0" "or_zero (Some x) = zero_falsy x"
  by (simp_all add: or_zero_def zero_falsy_def js_or_def)

lemma pad_each_Suc:
  "pad_each (Suc n) v = array_set (pad_each n v) n (or_zero (array_get (pad_each n v) n))"
  by (simp add: pad_each_def)

lemma pad_each_eq:
  "pad_each n v = map zero_falsy (take n v) @ replicate (n - length v) (Fin 0) @ drop n v"
proof (induction n)
  case 0
  show ?case by (simp add: pad_each_def)
next
  case (Suc n)
  show ?case
  proof (cases "n < length v")
    case True
    then have w: "pad_each n v = map zero_falsy (take n v) @ drop n v"
      using Suc by simp
    have len: "length (map zero_falsy (take n v)) = n" using True by simp
    have nth: "(map zero_falsy (take n v) @ drop n v) ! n = v ! n"
      using True by (simp add: nth_append)
    have "pad_each (Suc n) v = (map zero_falsy (take n v) @ drop n v)[n := zero_falsy (v ! n)]"
      using True by (simp add: pad_each_Suc w array_set_def array_get_def nth)
    also have "\<dots> = map zero_falsy (take n v) @ (drop n v)[0 := zero_falsy (v ! n)]"
      using len by (simp add: list_update_append)
    also have "(drop n v)[0 := zero_falsy (v ! n)] = zero_falsy (v ! n) # drop (Suc n) v"
      using True by (simp add: Cons_nth_drop_Suc [symmetric])
    finally show ?thesis
      using True by (simp add: take_Suc_conv_app_nth)
  next
    case False
    then have w: "pad_each n v = map zero_falsy v @ replicate (n - length v) (Fin 0)"
      using Suc by simp
    have "pad_each (Suc n) v = map zero_falsy v @ replicate (n - length v) (Fin 0) @ [Fin 0]"
      using False by (simp add: pad_each_Suc w array_set_def array_get_def)
    also have "replicate (n - length v) (Fin 0) @ [Fin 0] = replicate (Suc n - length v) (Fin 0)"
      using False by (simp add: Suc_diff_le replicate_append_same)
    finally show ?thesis using False by simp
  qed
qed

lemma length_pad_each [simp]: "length (pad_each n v) = max n (length v)"
  by (simp add: pad_each_eq)

lemma map_index_zip:
  "length xs = length ys \<Longrightarrow>
   map (\<lambda>(num, idx). js_sub num (to_number (array_get ys idx))) (zip xs [0..<length xs]) =
   map (\<lambda>(a, b). js_sub a b) (zip xs ys)"
  by (rule nth_equalityI) (simp_all add: array_get_def)

lemma compareVersions_deltas:
  "compareVersions version1 version2 =
     first_nonzero (padded_deltas (parseVersionNumber version1) (parseVersionNumber version2))"
proof -
  define v1 where "v1 = parseVersionNumber version1"
  define v2 where "v2 = parseVersionNumber version2"
  define w2 where "w2 = pad_each (length v1) v2"
  define w1 where "w1 = pad_each (length w2) v1"
  have l2: "length w2 = max (length v1) (length v2)" by (simp add: w2_def)
  have l1: "length w1 = length w2" by (simp add: w1_def l2)
  have e1: "w1 = map zero_falsy v1 @ replicate (length v2 - length v1) (Fin 0)"
    by (simp add: w1_def pad_each_eq l2) 
  have e2: "w2 = map zero_falsy (take (length v1) v2) @ replicate (length v1 - length v2) (Fin 0) @
             drop (length v1) v2"
    by (simp add: w2_def pad_each_eq)
  have "compareVersions version1 version2 =
      first_nonzero (map (\<lambda>(num, idx). js_sub num (to_number (array_get w2 idx)))
                       (zip w1 [0..<length w1]))"
    by (simp add: compareVersions_def Let_def first_nonzero_def v1_def v2_def w1_def w2_def)
  also have "\<dots> = first_nonzero (map (\<lambda>(a, b). js_sub a b) (zip w1 w2))"
    by (simp add: map_index_zip [OF l1])
  finally show ?thesis
    by (simp add: padded_deltas_def e1 e2 v1_def v2_def)
qed

lemma first_nonzero_not_NaN: "first_nonzero ds \<noteq> NaN"
  by (cases "array_get (filter (\<lambda>num. strict_ne num (Fin 0)) ds) 0")
     (auto simp: first_nonzero_def zero_falsy_def js_or_def)

subsection \<open>Equal versions, swapped versions, segments that are not numbers\<close>

lemma js_sub_self: "js_sub x x = Fin 0 \<or> js_sub x x = NaN"
  by (cases x) simp_all

lemma first_nonzero_Cons:
  "first_nonzero (d # ds) = (if d = Fin 0 then first_nonzero ds else zero_falsy d)"
  by (simp add: first_nonzero_def strict_ne_def strict_eq_def array_get_def)

lemma first_nonzero_Nil [simp]: "first_nonzero [] = Fin 0"
  by (simp add: first_nonzero_def array_get_def)

lemma first_nonzero_zero_or_NaN:
  "\<forall>d \<in> set ds. d = Fin 0 \<or> d = NaN \<Longrightarrow> first_nonzero ds = Fin 0"
  by (induction ds) (auto simp: first_nonzero_Cons)

lemma padded_deltas_self: "padded_deltas v v = map (\<lambda>x. js_sub (zero_falsy x) (zero_falsy x)) v"
  by (simp add: padded_deltas_def zip_same_conv_map)

lemma compareVersions_self: "compareVersions a a = Fin 0"
  unfolding compareVersions_deltas padded_deltas_self
  by (rule first_nonzero_zero_or_NaN) (use js_sub_self in auto)

lemma js_sub_swap: "js_sub y x = js_neg (js_sub x y)"
  by (cases x; cases y) (simp_all add: round_double_minus [symmetric])

lemma zero_falsy_id: "x \<noteq> NaN \<Longrightarrow> zero_falsy x = x"
  by (cases x) simp_all

lemma map_zero_falsy_id: "NaN \<notin> set v \<Longrightarrow> map zero_falsy v = v"
  by (induction v) (auto simp: zero_falsy_id)

lemma padded_deltas_numeric:
  assumes "NaN \<notin> set v1" "NaN \<notin> set v2"
  shows "padded_deltas v1 v2 =
     map (\<lambda>(a, b). js_sub a b)
       (zip (v1 @ replicate (length v2 - length v1) (Fin 0))
            (v2 @ replicate (length v1 - length v2) (Fin 0)))"
proof -
  have "NaN \<notin> set (take (length v1) v2)" using assms(2) by (auto dest: in_set_takeD)
  then have t: "map zero_falsy (take (length v1) v2) = take (length v1) v2"
    by (rule map_zero_falsy_id)
  have "take (length v1) v2 @ replicate (length v1 - length v2) (Fin 0) @ drop (length v1) v2
      = v2 @ replicate (length v1 - length v2) (Fin 0)"
    by (cases "length v1 \<le> length v2") simp_all
  then show ?thesis
    by (simp add: padded_deltas_def t map_zero_falsy_id [OF assms(1)])
qed

lemma zip_swap_map: "map (\<lambda>(a, b). js_sub a b) (zip ys xs) = map js_neg (map (\<lambda>(a, b). js_sub a b) (zip xs ys))"
  by (induction ys xs rule: list_induct2') (simp_all add: js_sub_swap [symmetric])

lemma first_nonzero_neg: "first_nonzero (map js_neg ds) = js_neg (first_nonzero ds)"
proof (induction ds)
  case Nil show ?case by simp
next
  case (Cons d ds)
  then show ?case by (cases d) (simp_all add: first_nonzero_Cons)
qed

lemma compareVersions_antisym:
  assumes "NaN \<notin> set (parseVersionNumber a)" "NaN \<notin> set (parseVersionNumber b)"
  shows "compareVersions a b = js_neg (compareVersions b a)"
proof -
  let ?A = "parseVersionNumber a @
              replicate (length (parseVersionNumber b) - length (parseVersionNumber a)) (Fin 0)"
  let ?B = "parseVersionNumber b @
              replicate (length (parseVersionNumber a) - length (parseVersionNumber b)) (Fin 0)"
  have "compareVersions a b = first_nonzero (map (\<lambda>(a, b). js_sub a b) (zip ?A ?B))"
    by (simp only: compareVersions_deltas padded_deltas_numeric [OF assms])
  also have "\<dots> = first_nonzero (map js_neg (map (\<lambda>(a, b). js_sub a b) (zip ?B ?A)))"
    by (simp only: zip_swap_map [of ?A ?B])
  also have "\<dots> = js_neg (first_nonzero (map (\<lambda>(a, b). js_sub a b) (zip ?B ?A)))"
    by (rule first_nonzero_neg)
  also have "\<dots> = js_neg (compareVersions b a)"
    by (simp only: compareVersions_deltas padded_deltas_numeric [OF assms(2,1)])
  finally show ?thesis .
qed

lemma zero_falsy_zero_nan: "map zero_falsy (zero_nan v) = map zero_falsy v"
  by (induction v) (auto simp: zero_nan_def)

lemma zero_nan_id: "NaN \<notin> set v \<Longrightarrow> zero_nan v = v"
  by (induction v) (auto simp: zero_nan_def)

lemma padded_deltas_zero_nan:
  assumes "NaN \<notin> set (drop (length v1) v2)"
  shows "padded_deltas (zero_nan v1) (zero_nan v2) = padded_deltas v1 v2"
proof -
  have l: "length (zero_nan v1) = length v1" "length (zero_nan v2) = length v2"
    by (simp_all add: zero_nan_def)
  have t: "take (length v1) (zero_nan v2) = zero_nan (take (length v1) v2)"
    by (simp add: zero_nan_def take_map)
  have d: "drop (length v1) (zero_nan v2) = drop (length v1) v2"
    using zero_nan_id [OF assms] by (simp add: zero_nan_def drop_map)
  show ?thesis
    by (simp add: padded_deltas_def l t d zero_falsy_zero_nan)
qed

subsection \<open>The claims on the comparison\<close>

lemma parse_6: "parseVersionNumber ''6'' = [Fin 6]" by code_simp
lemma parse_6_0_0: "parseVersionNumber ''6.0.0'' = [Fin 6]" by code_simp
lemma parse_6_0_2: "parseVersionNumber ''6.0.2'' = [Fin 6, Fin 0, Fin 2]" by code_simp
lemma parse_6_0_5: "parseVersionNumber ''6.0.5'' = [Fin 6, Fin 0, Fin 5]" by code_simp
lemma parse_6_x_5: "parseVersionNumber ''6.x.5'' = [Fin 6, NaN, Fin 5]" by code_simp
lemma parse_x_1: "parseVersionNumber ''x.1'' = [NaN, Fin 1]" by code_simp
lemma parse_0_1: "parseVersionNumber ''0.1'' = [Fin 0, Fin 1]" by code_simp
lemma parse_0_2: "parseVersionNumber ''0.2'' = [Fin 0, Fin 2]" by code_simp
lemma parse_x: "parseVersionNumber ''x'' = [NaN]" by code_simp
lemma parse_0: "parseVersionNumber ''0'' = [Fin 0]" by code_simp

lemmas first_nonzero_eval = first_nonzero_Cons padded_deltas_def

text \<open>
  C5. Comparing a version with itself gives 0. For two normalizable versions (each segment
  parses to a number) swapping the arguments negates the result, and the result is the
  first non-zero difference of the two parsed arrays, the shorter one padded with zeros
  at its end. So \<open>"6"\<close> and \<open>"6.0.0"\<close> compare equal, and \<open>"6"\<close> is less than
  \<open>"6.0.2"\<close>.
\<close>

theorem compareVersions_equal_and_swapped:
  "compareVersions a a = Fin 0 \<and>
   (normalizable a \<and> normalizable b \<longrightarrow>
      compareVersions a b = js_neg (compareVersions b a) \<and>
      compareVersions a b =
        first_nonzero (map (\<lambda>(x, y). js_sub x y)
          (zip (parseVersionNumber a @
                  replicate (length (parseVersionNumber b) - length (parseVersionNumber a)) (Fin 0))
               (parseVersionNumber b @
                  replicate (length (parseVersionNumber a) - length (parseVersionNumber b)) (Fin 0))))) \<and>
   compareVersions ''6'' ''6.0.0'' = Fin 0 \<and>
   js_lt (compareVersions ''6'' ''6.0.2'') (Fin 0)"
proof -
  have 1: "compareVersions ''6'' ''6.0.0'' = Fin 0"
    by (simp add: compareVersions_deltas parse_6 parse_6_0_0 first_nonzero_eval)
  have 2: "compareVersions ''6'' ''6.0.2'' = Fin (- 2)"
    by (simp add: compareVersions_deltas parse_6 parse_6_0_2 first_nonzero_eval)
  show ?thesis
    using compareVersions_self [of a] 1 2 compareVersions_antisym [of a b]
      padded_deltas_numeric [of "parseVersionNumber a" "parseVersionNumber b"]
    by (simp add: normalizable_def compareVersions_deltas)
qed

text \<open>The versions \<open>"6"\<close> and \<open>"6.0.2"\<close> are normalizable and compare as -2 and 2.\<close>

theorem compareVersions_equal_and_swapped_witness:
  "normalizable ''6'' \<and> normalizable ''6.0.2'' \<and>
   compareVersions ''6'' ''6.0.2'' = Fin (- 2) \<and>
   compareVersions ''6.0.2'' ''6'' = Fin 2 \<and>
   compareVersions ''6'' ''6.0.2'' = js_neg (compareVersions ''6.0.2'' ''6'')"
proof -
  have n: "normalizable ''6''" "normalizable ''6.0.2''"
    by (simp_all add: normalizable_def parse_6 parse_6_0_2)
  have 1: "compareVersions ''6'' ''6.0.2'' = Fin (- 2)"
    by (simp add: compareVersions_deltas parse_6 parse_6_0_2 first_nonzero_eval)
  have 2: "compareVersions ''6.0.2'' ''6'' = Fin 2"
    by (simp add: compareVersions_deltas parse_6 parse_6_0_2 first_nonzero_eval)
  from compareVersions_equal_and_swapped [of "''6''" "''6.0.2''"] n 1 2
  show ?thesis by simp
qed

text \<open>
  \<open>compareVersions\<close> returns a number for every pair of strings, never \<open>NaN\<close>. When
  the second version has no \<open>NaN\<close> segment at or beyond the number of segments of the
  first, the result is that of two versions whose segments are the same with every
  \<open>NaN\<close> replaced by 0.
\<close>

lemma compareVersions_total:
  "compareVersions a b \<noteq> NaN \<and>
   (NaN \<notin> set (drop (length (parseVersionNumber a)) (parseVersionNumber b)) \<and>
    parseVersionNumber a' = zero_nan (parseVersionNumber a) \<and>
    parseVersionNumber b' = zero_nan (parseVersionNumber b) \<longrightarrow>
      compareVersions a b = compareVersions a' b')"
  using first_nonzero_not_NaN [of "padded_deltas (parseVersionNumber a) (parseVersionNumber b)"]
    padded_deltas_zero_nan [of "parseVersionNumber a" "parseVersionNumber b"]
  by (simp add: compareVersions_deltas)

text \<open>
  C10. The result is never \<open>NaN\<close>, but a segment that is not a number does not always
  compare as 0. The version \<open>"6.x.5"\<close> with its segment \<open>x\<close> read as 0 is
  \<open>"6.0.5"\<close>, which is greater than \<open>"6"\<close>, and \<open>compareVersions "6.x.5" "6"\<close> is 5
  as \<open>compareVersions "6.0.5" "6"\<close> is. In the other direction \<open>"6"\<close> against
  \<open>"6.0.5"\<close> gives -5, yet \<open>"6"\<close> against \<open>"6.x.5"\<close> gives 0: the first \<open>forEach\<close>
  runs over the indices of the first array only, the \<open>NaN\<close> of the second array beyond
  them is not replaced by 0, and the \<open>NaN\<close> delta it produces ends the comparison.
\<close>

theorem compareVersions_NaN_tail_not_coerced:
  "parseVersionNumber ''6.x.5'' = [Fin 6, NaN, Fin 5] \<and>
   parseVersionNumber ''6.0.5'' = zero_nan (parseVersionNumber ''6.x.5'') \<and>
   compareVersions ''6.x.5'' ''6'' = Fin 5 \<and>
   compareVersions ''6.0.5'' ''6'' = Fin 5 \<and>
   compareVersions ''6'' ''6.0.5'' = Fin (- 5) \<and>
   compareVersions ''6'' ''6.x.5'' = Fin 0"
  by (simp add: compareVersions_deltas parse_6 parse_6_0_5 parse_6_x_5 first_nonzero_eval zero_nan_def)

text \<open>
  C8, as stated, fails: the segment \<open>x\<close> parses to \<open>NaN\<close>, yet \<open>"x"\<close> and \<open>"0"\<close>
  compare equal, and \<open>"x.1"\<close> compares with \<open>"0.2"\<close> exactly as \<open>"0.1"\<close> does: the
  segment is treated as the number 0 and no \<open>NaN\<close> reaches the result.
\<close>

theorem compareVersions_NaN_mismatch_counterexample:
  "parseVersionNumber ''x'' = [NaN] \<and> parseVersionNumber ''0'' = [Fin 0] \<and>
   compareVersions ''x'' ''0'' = Fin 0 \<and>
   compareVersions ''x.1'' ''0.2'' = compareVersions ''0.1'' ''0.2''"
  by (simp add: compareVersions_deltas parse_x parse_0 parse_x_1 parse_0_1 parse_0_2 first_nonzero_eval)

lemma map_zero_falsy_zero_nan: "map zero_falsy v = zero_nan v"
proof (induction v)
  case Nil show ?case by (simp add: zero_nan_def)
next
  case (Cons x v)
  then show ?case by (cases x) (simp_all add: zero_nan_def)
qed

lemma padded_deltas_same_length:
  "length v1 = length v2 \<Longrightarrow>
   padded_deltas v1 v2 = map (\<lambda>(x, y). js_sub x y) (zip (zero_nan v1) (zero_nan v2))"
  by (simp add: padded_deltas_def map_zero_falsy_zero_nan)

text \<open>
  C8, amended. A segment that is not numeric parses to \<open>NaN\<close>, but the \<open>NaN\<close> does not
  reach the result of \<open>compareVersions\<close>: the result is never \<open>NaN\<close>, and for two
  versions with the same number of segments it is the first non-zero difference of the
  parsed arrays with every \<open>NaN\<close> replaced by 0.
\<close>

theorem compareVersions_NaN_as_zero:
  "compareVersions a b \<noteq> NaN \<and>
   (length (parseVersionNumber a) = length (parseVersionNumber b) \<longrightarrow>
      compareVersions a b =
        first_nonzero (map (\<lambda>(x, y). js_sub x y)
          (zip (zero_nan (parseVersionNumber a)) (zero_nan (parseVersionNumber b)))))"
  using first_nonzero_not_NaN [of "padded_deltas (parseVersionNumber a) (parseVersionNumber b)"]
    padded_deltas_same_length [of "parseVersionNumber a" "parseVersionNumber b"]
  by (simp add: compareVersions_deltas)

text \<open>\<open>"x.1"\<close> and \<open>"0.2"\<close> have two segments each; the first of \<open>"x.1"\<close> is \<open>NaN\<close>.\<close>

theorem compareVersions_NaN_as_zero_witness:
  "length (parseVersionNumber ''x.1'') = length (parseVersionNumber ''0.2'') \<and>
   parseVersionNumber ''x.1'' = [NaN, Fin 1] \<and>
   compareVersions ''x.1'' ''0.2'' = Fin (- 1) \<and>
   first_nonzero (map (\<lambda>(x, y). js_sub x y)
     (zip (zero_nan (parseVersionNumber ''x.1'')) (zero_nan (parseVersionNumber ''0.2'')))) = Fin (- 1)"
proof -
  have h: "length (parseVersionNumber ''x.1'') = length (parseVersionNumber ''0.2'')"
    by (simp add: parse_x_1 parse_0_2)
  have 1: "compareVersions ''x.1'' ''0.2'' = Fin (- 1)"
    by (simp add: compareVersions_deltas parse_x_1 parse_0_2 first_nonzero_eval)
  from compareVersions_NaN_as_zero [of "''x.1''" "''0.2''"] h 1
  show ?thesis by (simp add: parse_x_1)
qed

section \<open>Resolving a user agent\<close>

subsection \<open>The sort returns a permutation\<close>

lemma mset_insert_sorted: "mset (insert_sorted f x ys) = add_mset x (mset ys)"
  by (induction ys) simp_all

lemma mset_array_sort: "mset (array_sort f xs) = mset xs"
  by (induction xs) (simp_all add: array_sort_def mset_insert_sorted)

lemma set_insert_sorted: "set (insert_sorted f x ys) = insert x (set ys)"
  by (induction ys) auto

lemma set_array_sort: "set (array_sort f xs) = set xs"
  by (induction xs) (simp_all add: array_sort_def set_insert_sorted)

subsection \<open>The example catalog\<close>

lemma example_candidates:
  "matchingCbtUserAgents (example_userAgent p v) example_catalog =
     [example_candidate example_win7 ''Chrome63x64'' ''63.0.1'',
      example_candidate example_win7 ''Chrome64x64'' ''64.0.3282'',
      example_candidate example_win10 ''Chrome64x64'' ''64.0.3282'']"
  by (simp add: matchingCbtUserAgents_def example_userAgent_def example_catalog_def
      example_win7_def example_win10_def example_browser_def isMatchingDevice_def
      allBrowserApiNames_def example_candidate_def)

lemma parse_win7: "parseVersionNumber ''Windows 7 64-bit'' = [Fin 7]" by code_simp
lemma parse_win10: "parseVersionNumber ''Windows 10'' = [Fin 10]" by code_simp
lemma parse_63: "parseVersionNumber ''63.0.1'' = [Fin 63, Fin 0, Fin 1]" by code_simp
lemma parse_64_0: "parseVersionNumber ''64.0.3282'' = [Fin 64, Fin 0, Fin 3282]" by code_simp
lemma parse_64: "parseVersionNumber ''64'' = [Fin 64]" by code_simp
lemma parse_63s: "parseVersionNumber ''63'' = [Fin 63]" by code_simp
lemma parse_65: "parseVersionNumber ''65'' = [Fin 65]" by code_simp

lemmas example_parses = parse_win7 parse_win10 parse_63 parse_64_0 parse_64 parse_63s parse_65

lemma js_gt_Fin: "js_gt (Fin x) (Fin y) = (y < x)"
  by (simp add: js_gt_def)

lemma example_candidate_fields:
  "CbtDevice.version (CbtUserAgent.device (example_candidate example_win7 n v)) = ''Windows 7 64-bit''"
  "CbtDevice.version (CbtUserAgent.device (example_candidate example_win10 n v)) = ''Windows 10''"
  "sort_order (CbtUserAgent.device (example_candidate example_win7 n v)) = Fin 1"
  "sort_order (CbtUserAgent.device (example_candidate example_win10 n v)) = Fin 2"
  "CbtBrowser.version (browser (example_candidate d n v)) = v"
  "api_name (browser (example_candidate d n v)) = n"
  by (simp_all add: example_candidate_def example_win7_def example_win10_def example_browser_def)

lemma example_versions:
  "compareVersions ''Windows 7 64-bit'' ''Windows 10'' = Fin (- 3)"
  "compareVersions ''Windows 10'' ''Windows 7 64-bit'' = Fin 3"
  "compareVersions ''Windows 7 64-bit'' ''Windows 7 64-bit'' = Fin 0"
  "compareVersions ''63.0.1'' ''64.0.3282'' = Fin (- 1)"
  "compareVersions ''64.0.3282'' ''63.0.1'' = Fin 1"
  "compareVersions ''64.0.3282'' ''64.0.3282'' = Fin 0"
  by (simp_all add: compareVersions_deltas example_parses first_nonzero_eval)

lemma example_comparisons:
  "compareUserAgents (example_candidate example_win7 ''Chrome63x64'' ''63.0.1'')
                     (example_candidate example_win7 ''Chrome64x64'' ''64.0.3282'') = Fin (- 1)"
  "compareUserAgents (example_candidate example_win7 ''Chrome64x64'' ''64.0.3282'')
                     (example_candidate example_win10 ''Chrome64x64'' ''64.0.3282'') = Fin (- 3)"
  "compareUserAgents (example_candidate example_win7 ''Chrome63x64'' ''63.0.1'')
                     (example_candidate example_win10 ''Chrome64x64'' ''64.0.3282'') = Fin (- 3)"
  by (simp_all add: compareUserAgents_def example_candidate_fields example_versions js_or_def)

lemma example_ranked:
  "rankedCbtUserAgents (example_userAgent p v) example_catalog =
     [example_candidate example_win10 ''Chrome64x64'' ''64.0.3282'',
      example_candidate example_win7 ''Chrome64x64'' ''64.0.3282'',
      example_candidate example_win7 ''Chrome63x64'' ''63.0.1'']"
  unfolding rankedCbtUserAgents_def example_candidates
  by (simp add: array_sort_def example_comparisons js_gt_Fin)

subsection \<open>The ranked list\<close>

lemma ranked_mset:
  "mset (rankedCbtUserAgents ua catalog) = mset (matchingCbtUserAgents ua catalog)"
  by (simp add: rankedCbtUserAgents_def mset_array_sort)

lemma ranked_set:
  "set (rankedCbtUserAgents ua catalog) = set (matchingCbtUserAgents ua catalog)"
  by (simp add: rankedCbtUserAgents_def set_array_sort)

lemma compareUserAgents_lexicographic:
  "compareUserAgents a b =
     (let byDevice = compareVersions (CbtDevice.version (CbtUserAgent.device a))
                                     (CbtDevice.version (CbtUserAgent.device b));
          byBrowser = compareVersions (CbtBrowser.version (browser a))
                                      (CbtBrowser.version (browser b))
      in if byDevice \<noteq> Fin 0 then byDevice
         else if byBrowser \<noteq> Fin 0 then byBrowser
         else js_sub (sort_order (CbtUserAgent.device a)) (sort_order (CbtUserAgent.device b)))"
proof -
  have t: "truthy (compareVersions x y) \<longleftrightarrow> compareVersions x y \<noteq> Fin 0" for x y
    using first_nonzero_not_NaN [of "padded_deltas (parseVersionNumber x) (parseVersionNumber y)"]
    by (cases "compareVersions x y") (simp_all add: compareVersions_deltas)
  show ?thesis
    by (simp add: compareUserAgents_def js_or_def t Let_def)
qed

subsection \<open>Candidates and the exact match\<close>

lemma fold_insert_api_names:
  "fold (\<lambda>cbtBrowser names. insert (api_name cbtBrowser) names) bs acc = acc \<union> api_name ` set bs"
  by (induction bs arbitrary: acc) auto

lemma fold_union_api_names:
  "fold (\<lambda>cbtDevice names. names \<union> api_name ` set (browsers cbtDevice)) ds acc =
   acc \<union> (\<Union>d \<in> set ds. api_name ` set (browsers d))"
  by (induction ds arbitrary: acc) auto

lemma allBrowserApiNames_iff:
  "name \<in> allBrowserApiNames catalog \<longleftrightarrow>
     (\<exists>d \<in> set catalog. \<exists>b \<in> set (browsers d). api_name b = name)"
  unfolding allBrowserApiNames_def fold_insert_api_names fold_union_api_names by auto

lemma candidate_has_no_x64_variant:
  "c \<in> set (matchingCbtUserAgents ua catalog) \<Longrightarrow>
   api_name (browser c) @ ''x64'' \<notin> allBrowserApiNames catalog"
  unfolding matchingCbtUserAgents_def
  by (auto split: if_splits)

lemma candidate_from_catalog:
  "c \<in> set (matchingCbtUserAgents ua catalog) \<Longrightarrow>
   CbtUserAgent.device c \<in> set catalog \<and> browser c \<in> set (browsers (CbtUserAgent.device c)) \<and>
   isMatchingDevice ua (CbtUserAgent.device c) \<and>
   CbtBrowser.type (browser c) \<in> set (browserVendorMap (browser_vendor_type ua))"
  unfolding matchingCbtUserAgents_def
  by (auto split: if_splits)

lemma array_get_in_set: "array_get xs i = Some x \<Longrightarrow> x \<in> set xs"
  by (auto simp: array_get_def split: if_splits)

lemma result_is_ranked:
  "getMatchingCbtUserAgent ua catalog = Some c \<Longrightarrow> c \<in> set (rankedCbtUserAgents ua catalog)"
  unfolding getMatchingCbtUserAgent_def Let_def
  by (auto simp: find_Some_iff dest: array_get_in_set split: if_splits)

lemma everySegmentEqual_iff:
  "everySegmentEqual t cur \<longleftrightarrow>
     length t \<le> length cur \<and> (\<forall>i<length t. strict_eq (t ! i) (cur ! i))"
proof -
  have 1: "everySegmentEqual t cur \<longleftrightarrow> (\<forall>i<length t. i < length cur \<and> strict_eq (t ! i) (cur ! i))"
    unfolding everySegmentEqual_def list_all_length
    by (auto simp: array_get_def split: if_splits)
  have 2: "(\<forall>i<length t. i < length cur) \<longleftrightarrow> length t \<le> length cur"
  proof
    assume a: "\<forall>i<length t. i < length cur"
    show "length t \<le> length cur"
    proof (cases "length t")
      case 0
      then show ?thesis by simp
    next
      case (Suc n)
      with a have "n < length cur" by simp
      with Suc show ?thesis by simp
    qed
  next
    assume "length t \<le> length cur"
    then show "\<forall>i<length t. i < length cur" by simp
  qed
  show ?thesis unfolding 1 using 2 by blast
qed

lemma everySegmentEqual_prefix:
  assumes "NaN \<notin> set t"
  shows "everySegmentEqual t cur \<longleftrightarrow> prefix t cur"
proof -
  have eq: "strict_eq (t ! i) (cur ! i) \<longleftrightarrow> t ! i = cur ! i" if "i < length t" for i
  proof -
    have "t ! i \<in> set t" using that by simp
    with assms have "t ! i \<noteq> NaN" by metis
    then show ?thesis by (auto simp: strict_eq_def)
  qed
  have "everySegmentEqual t cur \<longleftrightarrow> length t \<le> length cur \<and> (\<forall>i<length t. t ! i = cur ! i)"
    unfolding everySegmentEqual_iff using eq by auto
  also have "\<dots> \<longleftrightarrow> take (length t) cur = t"
    by (auto simp: list_eq_iff_nth_eq)
  also have "\<dots> \<longleftrightarrow> prefix t cur"
  proof
    assume "take (length t) cur = t"
    then show "prefix t cur" using take_is_prefix [of "length t" cur] by simp
  next
    assume "prefix t cur"
    then obtain zs where "cur = t @ zs" by (auto simp: prefix_def)
    then show "take (length t) cur = t" by simp
  qed
  finally show ?thesis .
qed

lemma example_single:
  "matchingCbtUserAgents (example_userAgent p v) [example_win10] =
     [example_candidate example_win10 ''Chrome64x64'' ''64.0.3282'']"
  by (simp add: matchingCbtUserAgents_def example_userAgent_def
      example_win10_def example_browser_def isMatchingDevice_def
      allBrowserApiNames_def example_candidate_def)

lemma example_userAgent_fields:
  "browser_version_type (example_userAgent p v) = p"
  "browser_version_value (example_userAgent p v) = v"
  by (simp_all add: example_userAgent_def)

lemma example_agreement:
  "everySegmentEqual (parseVersionNumber ''64'') (parseVersionNumber ''64.0.3282'')"
  "\<not> everySegmentEqual (parseVersionNumber ''64'') (parseVersionNumber ''63.0.1'')"
  "everySegmentEqual (parseVersionNumber ''63'') (parseVersionNumber ''63.0.1'')"
  "\<not> everySegmentEqual (parseVersionNumber ''63'') (parseVersionNumber ''64.0.3282'')"
  "\<not> everySegmentEqual (parseVersionNumber ''65'') (parseVersionNumber ''63.0.1'')"
  "\<not> everySegmentEqual (parseVersionNumber ''65'') (parseVersionNumber ''64.0.3282'')"
  by (simp_all add: example_parses everySegmentEqual_def array_get_def strict_eq_def)

text \<open>
  The ranked list is a permutation of the candidates. Under the policy LATEST the result
  is the first ranked candidate, and \<open>undefined\<close> for an empty list; under PREVIOUS it
  is the second, and \<open>undefined\<close> for fewer than two candidates. Without a candidate the
  result is \<open>undefined\<close> under every policy: the function has no other outcome than a
  candidate or \<open>undefined\<close>.
\<close>

lemma resolution_selects:
  "mset (rankedCbtUserAgents ua catalog) = mset (matchingCbtUserAgents ua catalog) \<and>
   (browser_version_type ua = LATEST \<longrightarrow>
      getMatchingCbtUserAgent ua catalog =
        (if rankedCbtUserAgents ua catalog = [] then None
         else Some (rankedCbtUserAgents ua catalog ! 0))) \<and>
   (browser_version_type ua = PREVIOUS \<longrightarrow>
      getMatchingCbtUserAgent ua catalog =
        (if length (rankedCbtUserAgents ua catalog) < 2 then None
         else Some (rankedCbtUserAgents ua catalog ! 1))) \<and>
   (matchingCbtUserAgents ua catalog = [] \<longrightarrow> getMatchingCbtUserAgent ua catalog = None)"
proof (intro conjI)
  show "mset (rankedCbtUserAgents ua catalog) = mset (matchingCbtUserAgents ua catalog)"
    by (rule ranked_mset)
  show "browser_version_type ua = LATEST \<longrightarrow>
      getMatchingCbtUserAgent ua catalog =
        (if rankedCbtUserAgents ua catalog = [] then None
         else Some (rankedCbtUserAgents ua catalog ! 0))"
    by (simp add: getMatchingCbtUserAgent_def array_get_def)
  show "browser_version_type ua = PREVIOUS \<longrightarrow>
      getMatchingCbtUserAgent ua catalog =
        (if length (rankedCbtUserAgents ua catalog) < 2 then None
         else Some (rankedCbtUserAgents ua catalog ! 1))"
    by (auto simp: getMatchingCbtUserAgent_def array_get_def)
  show "matchingCbtUserAgents ua catalog = [] \<longrightarrow> getMatchingCbtUserAgent ua catalog = None"
    by (simp add: getMatchingCbtUserAgent_def rankedCbtUserAgents_def array_sort_def array_get_def)
qed

subsection \<open>A catalog that has no descending order\<close>

lemma example_mixed_candidates:
  "matchingCbtUserAgents (example_userAgent p v) example_mixed_catalog =
     [example_mixed ''6'' (Fin 1), example_mixed ''6.x.1'' (Fin 1),
      example_mixed ''6.x.-1'' (Fin 2), example_mixed ''6'' (Fin 2)]"
  by (simp add: matchingCbtUserAgents_def example_userAgent_def example_mixed_catalog_def
      example_device_def example_browser_def isMatchingDevice_def
      allBrowserApiNames_def example_candidate_def example_mixed_def)

lemma example_mixed_fields:
  "CbtDevice.version (CbtUserAgent.device (example_mixed v order)) = v"
  "sort_order (CbtUserAgent.device (example_mixed v order)) = order"
  "CbtBrowser.version (browser (example_mixed v order)) = ''64''"
  by (simp_all add: example_mixed_def example_candidate_def example_device_def example_browser_def)

lemma parse_6_x_1: "parseVersionNumber ''6.x.1'' = [Fin 6, NaN, Fin 1]" by code_simp
lemma parse_6_x_m1: "parseVersionNumber ''6.x.-1'' = [Fin 6, NaN, Fin (- 1)]" by code_simp

lemma example_mixed_versions:
  "compareVersions ''6'' ''6.x.1'' = Fin 0"
  "compareVersions ''6.x.1'' ''6'' = Fin 1"
  "compareVersions ''6'' ''6.x.-1'' = Fin 0"
  "compareVersions ''6.x.-1'' ''6'' = Fin (- 1)"
  by (simp_all add: compareVersions_deltas parse_6 parse_6_x_1 parse_6_x_m1 first_nonzero_eval)

lemma example_mixed_comparisons:
  "compareUserAgents (example_mixed ''6'' (Fin 1)) (example_mixed ''6.x.-1'' (Fin 2)) = Fin (- 1)"
  "compareUserAgents (example_mixed ''6.x.-1'' (Fin 2)) (example_mixed ''6'' (Fin 1)) = Fin (- 1)"
  "compareUserAgents (example_mixed ''6.x.1'' (Fin 1)) (example_mixed ''6'' (Fin 2)) = Fin 1"
  "compareUserAgents (example_mixed ''6'' (Fin 2)) (example_mixed ''6.x.1'' (Fin 1)) = Fin 1"
  by (simp_all add: compareUserAgents_def example_mixed_fields example_mixed_versions
      compareVersions_self js_or_def)

lemma example_mixed_not_before:
  "\<not> ranked_before (example_mixed ''6'' (Fin 1)) (example_mixed ''6.x.-1'' (Fin 2))"
  "\<not> ranked_before (example_mixed ''6.x.-1'' (Fin 2)) (example_mixed ''6'' (Fin 1))"
  by (simp_all add: ranked_before_def example_mixed_fields example_mixed_versions
      compareVersions_self js_gt_Fin js_ge_Fin)

lemma example_mixed_not_behind:
  "\<not> ranked_behind (example_mixed ''6'' (Fin 2)) (example_mixed ''6.x.1'' (Fin 1))"
  "\<not> ranked_behind (example_mixed ''6.x.1'' (Fin 1)) (example_mixed ''6'' (Fin 2))"
  by (simp_all add: ranked_behind_def example_mixed_fields example_mixed_versions
      compareVersions_self js_ge_Fin)

lemma example_mixed_distinct:
  "example_mixed ''6'' (Fin 1) \<noteq> example_mixed ''6.x.-1'' (Fin 2)"
  "example_mixed ''6.x.1'' (Fin 1) \<noteq> example_mixed ''6'' (Fin 2)"
  by (simp_all add: example_mixed_def example_candidate_def example_device_def)

lemma sorted_wrt_related:
  assumes "sorted_wrt P r" "x \<in> set r" "y \<in> set r" "x \<noteq> y"
  shows "P x y \<or> P y x"
proof -
  obtain i j where i: "i < length r" "r ! i = x" and j: "j < length r" "r ! j = y"
    using assms(2,3) by (auto simp: in_set_conv_nth)
  have "i \<noteq> j" using i j assms(4) by auto
  then consider "i < j" | "j < i" by linarith
  then show ?thesis
  proof cases
    case 1
    then have "P (r ! i) (r ! j)"
      using assms(1) j(1) unfolding sorted_wrt_iff_nth_less by blast
    then show ?thesis using i j by simp
  next
    case 2
    then have "P (r ! j) (r ! i)"
      using assms(1) i(1) unfolding sorted_wrt_iff_nth_less by blast
    then show ?thesis using i j by simp
  qed
qed

lemma example_mixed_no_order:
  assumes "mset r = mset (matchingCbtUserAgents (example_userAgent p v) example_mixed_catalog)"
  shows "\<not> sorted_wrt ranked_before r" "\<not> sorted_wrt (\<lambda>a b. ranked_behind b a) r"
proof -
  have "set r = set (matchingCbtUserAgents (example_userAgent p v) example_mixed_catalog)"
    using assms by (rule mset_eq_setD)
  then have m: "example_mixed ''6'' (Fin 1) \<in> set r" "example_mixed ''6.x.-1'' (Fin 2) \<in> set r"
    "example_mixed ''6.x.1'' (Fin 1) \<in> set r" "example_mixed ''6'' (Fin 2) \<in> set r"
    by (simp_all add: example_mixed_candidates)
  show "\<not> sorted_wrt ranked_before r"
    using sorted_wrt_related [OF _ m(1) m(2) example_mixed_distinct(1), of ranked_before]
      example_mixed_not_before by blast
  show "\<not> sorted_wrt (\<lambda>a b. ranked_behind b a) r"
    using sorted_wrt_related [OF _ m(3) m(4) example_mixed_distinct(2), of "\<lambda>a b. ranked_behind b a"]
      example_mixed_not_behind by blast
qed

subsection \<open>The claims on the resolution\<close>

text \<open>
  C2. The ranking is not descending for every catalog. Take four Windows desktops with
  the same browser: versions \<open>"6"\<close>, \<open>"6.x.1"\<close>, \<open>"6.x.-1"\<close> and \<open>"6"\<close> with the sort
  orders 1, 1, 2 and 2. All four are candidates. \<open>compareVersions\<close> finds \<open>"6"\<close> equal
  to \<open>"6.x.1"\<close> and to \<open>"6.x.-1"\<close>, but \<open>"6.x.1"\<close> greater and \<open>"6.x.-1"\<close> smaller than
  \<open>"6"\<close>. So the comparison function puts the first candidate below the third and the
  third below the first, the second above the fourth and the fourth above the second.
  No order of the four candidates is descending, whether an element is compared with
  the later ones (\<open>ranked_before\<close>) or the later ones with it (\<open>ranked_behind\<close>); the
  ranked list, a permutation of the candidates, is not.
\<close>

theorem ranking_not_descending:
  "matchingCbtUserAgents (example_userAgent LATEST []) example_mixed_catalog =
     [example_mixed ''6'' (Fin 1), example_mixed ''6.x.1'' (Fin 1),
      example_mixed ''6.x.-1'' (Fin 2), example_mixed ''6'' (Fin 2)] \<and>
   compareVersions ''6'' ''6.x.1'' = Fin 0 \<and> compareVersions ''6.x.1'' ''6'' = Fin 1 \<and>
   compareVersions ''6'' ''6.x.-1'' = Fin 0 \<and> compareVersions ''6.x.-1'' ''6'' = Fin (- 1) \<and>
   compareUserAgents (example_mixed ''6'' (Fin 1)) (example_mixed ''6.x.-1'' (Fin 2)) = Fin (- 1) \<and>
   compareUserAgents (example_mixed ''6.x.-1'' (Fin 2)) (example_mixed ''6'' (Fin 1)) = Fin (- 1) \<and>
   compareUserAgents (example_mixed ''6.x.1'' (Fin 1)) (example_mixed ''6'' (Fin 2)) = Fin 1 \<and>
   compareUserAgents (example_mixed ''6'' (Fin 2)) (example_mixed ''6.x.1'' (Fin 1)) = Fin 1 \<and>
   \<not> (\<exists>r. mset r = mset (matchingCbtUserAgents (example_userAgent LATEST []) example_mixed_catalog) \<and>
          sorted_wrt ranked_before r) \<and>
   \<not> (\<exists>r. mset r = mset (matchingCbtUserAgents (example_userAgent LATEST []) example_mixed_catalog) \<and>
          sorted_wrt (\<lambda>a b. ranked_behind b a) r) \<and>
   \<not> sorted_wrt ranked_before
       (rankedCbtUserAgents (example_userAgent LATEST []) example_mixed_catalog) \<and>
   \<not> sorted_wrt (\<lambda>a b. ranked_behind b a)
       (rankedCbtUserAgents (example_userAgent LATEST []) example_mixed_catalog)"
  using example_mixed_no_order [of _ LATEST "[]"]
    example_mixed_no_order [OF ranked_mset, of LATEST "[]"]
  by (simp add: example_mixed_candidates example_mixed_versions example_mixed_comparisons)

text \<open>
  C3. Under the policy EXACT the result is the first candidate of the ranked list whose
  parsed browser version agrees with the parsed target version at every index of the
  target, and \<open>undefined\<close> when there is none. Agreement is \<open>===\<close> at each index, the
  candidate having at least as many segments as the target; for a target without
  \<open>NaN\<close> segment this says that the parsed target is a prefix of the parsed version.
  The target \<open>"64"\<close> matches \<open>"64.0.3282"\<close> and not \<open>"63.0.1"\<close>.
\<close>

theorem exact_policy_first_prefix_match:
  "(browser_version_type ua = EXACT \<longrightarrow>
      (case getMatchingCbtUserAgent ua catalog of
         None \<Rightarrow>
           \<forall>c \<in> set (rankedCbtUserAgents ua catalog).
             \<not> everySegmentEqual (parseVersionNumber (browser_version_value ua))
                                 (parseVersionNumber (CbtBrowser.version (browser c)))
       | Some c \<Rightarrow>
           \<exists>i < length (rankedCbtUserAgents ua catalog).
             c = rankedCbtUserAgents ua catalog ! i \<and>
             everySegmentEqual (parseVersionNumber (browser_version_value ua))
                               (parseVersionNumber (CbtBrowser.version (browser c))) \<and>
             (\<forall>j < i. \<not> everySegmentEqual (parseVersionNumber (browser_version_value ua))
                          (parseVersionNumber
                             (CbtBrowser.version (browser (rankedCbtUserAgents ua catalog ! j))))))) \<and>
   (everySegmentEqual t cur \<longleftrightarrow>
      length t \<le> length cur \<and> (\<forall>i < length t. strict_eq (t ! i) (cur ! i))) \<and>
   (NaN \<notin> set t \<longrightarrow> (everySegmentEqual t cur \<longleftrightarrow> prefix t cur)) \<and>
   everySegmentEqual (parseVersionNumber ''64'') (parseVersionNumber ''64.0.3282'') \<and>
   \<not> everySegmentEqual (parseVersionNumber ''64'') (parseVersionNumber ''63.0.1'')"
proof (intro conjI impI)
  assume exact: "browser_version_type ua = EXACT"
  let ?P = "\<lambda>c. everySegmentEqual (parseVersionNumber (browser_version_value ua))
                                  (parseVersionNumber (CbtBrowser.version (browser c)))"
  have r: "getMatchingCbtUserAgent ua catalog = find ?P (rankedCbtUserAgents ua catalog)"
    using exact by (simp add: getMatchingCbtUserAgent_def)
  show "case getMatchingCbtUserAgent ua catalog of
         None \<Rightarrow>
           \<forall>c \<in> set (rankedCbtUserAgents ua catalog).
             \<not> everySegmentEqual (parseVersionNumber (browser_version_value ua))
                                 (parseVersionNumber (CbtBrowser.version (browser c)))
       | Some c \<Rightarrow>
           \<exists>i < length (rankedCbtUserAgents ua catalog).
             c = rankedCbtUserAgents ua catalog ! i \<and>
             everySegmentEqual (parseVersionNumber (browser_version_value ua))
                               (parseVersionNumber (CbtBrowser.version (browser c))) \<and>
             (\<forall>j < i. \<not> everySegmentEqual (parseVersionNumber (browser_version_value ua))
                          (parseVersionNumber
                             (CbtBrowser.version (browser (rankedCbtUserAgents ua catalog ! j)))))"
  proof (cases "find ?P (rankedCbtUserAgents ua catalog)")
    case None
    then have "\<forall>c \<in> set (rankedCbtUserAgents ua catalog). \<not> ?P c"
      by (simp add: find_None_iff)
    then show ?thesis unfolding r None by simp
  next
    case (Some c)
    then have "\<exists>i < length (rankedCbtUserAgents ua catalog).
             c = rankedCbtUserAgents ua catalog ! i \<and> ?P c \<and>
             (\<forall>j < i. \<not> ?P (rankedCbtUserAgents ua catalog ! j))"
      by (auto simp: find_Some_iff)
    then show ?thesis unfolding r Some by simp
  qed
next
  show "everySegmentEqual t cur \<longleftrightarrow>
      length t \<le> length cur \<and> (\<forall>i < length t. strict_eq (t ! i) (cur ! i))"
    by (rule everySegmentEqual_iff)
next
  assume "NaN \<notin> set t"
  then show "everySegmentEqual t cur \<longleftrightarrow> prefix t cur"
    by (rule everySegmentEqual_prefix)
next
  show "everySegmentEqual (parseVersionNumber ''64'') (parseVersionNumber ''64.0.3282'')"
    by (rule example_agreement)
next
  show "\<not> everySegmentEqual (parseVersionNumber ''64'') (parseVersionNumber ''63.0.1'')"
    by (rule example_agreement)
qed

lemma example_exact:
  "getMatchingCbtUserAgent (example_userAgent EXACT ''63'') example_catalog =
     Some (example_candidate example_win7 ''Chrome63x64'' ''63.0.1'')"
  "getMatchingCbtUserAgent (example_userAgent EXACT ''64'') example_catalog =
     Some (example_candidate example_win10 ''Chrome64x64'' ''64.0.3282'')"
  "getMatchingCbtUserAgent (example_userAgent EXACT ''65'') example_catalog = None"
  by (simp_all add: getMatchingCbtUserAgent_def example_ranked example_userAgent_fields
      example_candidate_fields example_agreement)

text \<open>
  In the example catalog the target \<open>"63"\<close> selects the third ranked candidate, the
  first two having version \<open>"64.0.3282"\<close>; the target \<open>"65"\<close> selects none.
\<close>

theorem exact_policy_first_prefix_match_witness:
  "browser_version_type (example_userAgent EXACT ''63'') = EXACT \<and>
   rankedCbtUserAgents (example_userAgent EXACT ''63'') example_catalog =
     [example_candidate example_win10 ''Chrome64x64'' ''64.0.3282'',
      example_candidate example_win7 ''Chrome64x64'' ''64.0.3282'',
      example_candidate example_win7 ''Chrome63x64'' ''63.0.1''] \<and>
   getMatchingCbtUserAgent (example_userAgent EXACT ''63'') example_catalog =
     Some (example_candidate example_win7 ''Chrome63x64'' ''63.0.1'') \<and>
   everySegmentEqual (parseVersionNumber ''63'') (parseVersionNumber ''63.0.1'') \<and>
   \<not> everySegmentEqual (parseVersionNumber ''63'') (parseVersionNumber ''64.0.3282'') \<and>
   getMatchingCbtUserAgent (example_userAgent EXACT ''65'') example_catalog = None \<and>
   NaN \<notin> set (parseVersionNumber ''64'') \<and>
   prefix (parseVersionNumber ''64'') (parseVersionNumber ''64.0.3282'') \<and>
   \<not> prefix (parseVersionNumber ''64'') (parseVersionNumber ''63.0.1'')"
proof -
  have e: "browser_version_type (example_userAgent EXACT ''63'') = EXACT"
    by (simp add: example_userAgent_fields)
  have n: "NaN \<notin> set (parseVersionNumber ''64'')"
    by (simp add: example_parses)
  note a = exact_policy_first_prefix_match
    [of "example_userAgent EXACT ''63''" example_catalog "parseVersionNumber ''64''"
        "parseVersionNumber ''64.0.3282''"]
  note b = exact_policy_first_prefix_match
    [of "example_userAgent EXACT ''65''" example_catalog "parseVersionNumber ''64''"
        "parseVersionNumber ''63.0.1''"]
  have p1: "prefix (parseVersionNumber ''64'') (parseVersionNumber ''64.0.3282'')"
    using a n by blast
  have p2: "\<not> prefix (parseVersionNumber ''64'') (parseVersionNumber ''63.0.1'')"
    using b n by blast
  show ?thesis
    using e n p1 p2 by (simp add: example_exact example_ranked example_agreement)
qed

text \<open>
  C4. When some browser of some device of the catalog has the API name \<open>name + "x64"\<close>,
  no candidate has the API name \<open>name\<close>: not in the candidate list, not in the ranked
  list, and not as the result.
\<close>

theorem no_32_bit_candidate_beside_64_bit:
  "d \<in> set catalog \<Longrightarrow> b \<in> set (browsers d) \<Longrightarrow> api_name b = name @ ''x64'' \<Longrightarrow>
     (\<forall>c \<in> set (matchingCbtUserAgents ua catalog). api_name (browser c) \<noteq> name) \<and>
     (\<forall>c \<in> set (rankedCbtUserAgents ua catalog). api_name (browser c) \<noteq> name) \<and>
     (\<forall>c. getMatchingCbtUserAgent ua catalog = Some c \<longrightarrow> api_name (browser c) \<noteq> name)"
proof -
  assume "d \<in> set catalog" "b \<in> set (browsers d)" "api_name b = name @ ''x64''"
  then have in_names: "name @ ''x64'' \<in> allBrowserApiNames catalog"
    unfolding allBrowserApiNames_iff by blast
  have 1: "\<forall>c \<in> set (matchingCbtUserAgents ua catalog). api_name (browser c) \<noteq> name"
    using candidate_has_no_x64_variant [of _ ua catalog] in_names by blast
  then have 2: "\<forall>c \<in> set (rankedCbtUserAgents ua catalog). api_name (browser c) \<noteq> name"
    by (simp add: ranked_set)
  then have 3: "\<forall>c. getMatchingCbtUserAgent ua catalog = Some c \<longrightarrow> api_name (browser c) \<noteq> name"
    using result_is_ranked [of ua catalog] by blast
  from 1 2 3 show ?thesis by blast
qed

text \<open>
  The example catalog holds \<open>Chrome63\<close> and \<open>Chrome63x64\<close> on the same device; only the
  second is a candidate.
\<close>

theorem no_32_bit_candidate_beside_64_bit_witness:
  "example_win7 \<in> set example_catalog \<and>
   example_browser ''Chrome63x64'' ''63.0.1'' \<in> set (browsers example_win7) \<and>
   example_browser ''Chrome63'' ''63.0.1'' \<in> set (browsers example_win7) \<and>
   api_name (example_browser ''Chrome63x64'' ''63.0.1'') = ''Chrome63'' @ ''x64'' \<and>
   map (\<lambda>c. api_name (browser c))
       (matchingCbtUserAgents (example_userAgent LATEST []) example_catalog) =
     [''Chrome63x64'', ''Chrome64x64'', ''Chrome64x64''] \<and>
   list_all (\<lambda>c. api_name (browser c) \<noteq> ''Chrome63'')
     (matchingCbtUserAgents (example_userAgent LATEST []) example_catalog)"
proof -
  have h: "example_win7 \<in> set example_catalog"
    "example_browser ''Chrome63x64'' ''63.0.1'' \<in> set (browsers example_win7)"
    "example_browser ''Chrome63'' ''63.0.1'' \<in> set (browsers example_win7)"
    "api_name (example_browser ''Chrome63x64'' ''63.0.1'') = ''Chrome63'' @ ''x64''"
    by (simp_all add: example_catalog_def example_win7_def example_browser_def)
  from no_32_bit_candidate_beside_64_bit [OF h(1) h(2) h(4), of "example_userAgent LATEST []"]
  show ?thesis using h by (simp add: example_candidates example_candidate_fields list_all_iff)
qed

section \<open>Comparing all screenshots\<close>

subsection \<open>One comparison, and the loop over all\<close>

lemma compareOneImage_meta:
  "meta rd = meta rd' \<Longrightarrow> compareOneImage env rd a e = compareOneImage env rd' a e"
  by (simp add: compareOneImage_def)

lemma compareOneScreenshot_Inr:
  assumes "compareOneScreenshot env r st = Inr st'"
  shows "\<exists>d f. verdict env st r = Inr (d, f) \<and>
           store st' = (store st)(r := (store st r)\<lparr>
                            diff_image_result := Some d,
                            Screenshot.diff_image_file := Some (DiffImageResult.diff_image_file d),
                            capture_state := DIFFED\<rparr>) \<and>
           written st' = written st @ [f] \<and>
           meta (report st') = meta (report st) \<and>
           comparable_list st' = comparable_list st \<and>
           changed_list st' = changed_list st @ (if has_changed d then [r] else []) \<and>
           unchanged_list st' = unchanged_list st @ (if has_changed d then [] else [r])"
proof (cases "verdict env st r")
  case (Inl e)
  with assms show ?thesis
    by (simp add: compareOneScreenshot_def verdict_def and_then_def)
next
  case (Inr x)
  note v = Inr
  obtain d f where x: "x = (d, f)" by (cases x)
  show ?thesis
  proof (cases "has_changed d")
    case True
    with assms v have "st' = st\<lparr>written := written st @ [f],
                       store := (store st)(r :=
                         (store st r)\<lparr>
                            diff_image_result := Some d,
                            Screenshot.diff_image_file :=
                              Some (DiffImageResult.diff_image_file d),
                            capture_state := DIFFED\<rparr>),
                       report := (report st)\<lparr>screenshots :=
                          (screenshots (report st))\<lparr>changed_screenshot_list :=
                            changed_screenshot_list (screenshots (report st)) @ [r]\<rparr>\<rparr>\<rparr>"
      by (simp add: compareOneScreenshot_def verdict_def and_then_def x Let_def)
    then show ?thesis
      using v True
      by (intro exI [of _ d] exI [of _ f])
         (simp add: x changed_list_def unchanged_list_def comparable_list_def)
  next
    case False
    with assms v have "st' = st\<lparr>written := written st @ [f],
                       store := (store st)(r :=
                         (store st r)\<lparr>
                            diff_image_result := Some d,
                            Screenshot.diff_image_file :=
                              Some (DiffImageResult.diff_image_file d),
                            capture_state := DIFFED\<rparr>),
                       report := (report st)\<lparr>screenshots :=
                          (screenshots (report st))\<lparr>unchanged_screenshot_list :=
                            unchanged_screenshot_list (screenshots (report st)) @ [r]\<rparr>\<rparr>\<rparr>"
      by (simp add: compareOneScreenshot_def verdict_def and_then_def x Let_def)
    then show ?thesis
      using v False
      by (intro exI [of _ d] exI [of _ f])
         (simp add: x changed_list_def unchanged_list_def comparable_list_def)
  qed
qed

lemma verdict_step:
  assumes "compareOneScreenshot env r st = Inr st'"
  shows "verdict env st' q = verdict env st q"
proof -
  from compareOneScreenshot_Inr [OF assms] obtain d f where
    s: "store st' = (store st)(r := (store st r)\<lparr>
                            diff_image_result := Some d,
                            Screenshot.diff_image_file := Some (DiffImageResult.diff_image_file d),
                            capture_state := DIFFED\<rparr>)"
    and m: "meta (report st') = meta (report st)" by blast
  have "actual_image_file (store st' q) = actual_image_file (store st q)"
       "expected_image_file (store st' q) = expected_image_file (store st q)"
    by (simp_all add: s)
  then show ?thesis
    unfolding verdict_def using compareOneImage_meta [OF m] by simp
qed

lemma changes_step:
  "compareOneScreenshot env r st = Inr st' \<Longrightarrow> changes env st' q = changes env st q"
  by (simp add: changes_def verdict_step)

lemma forEach_Cons_Inr:
  "forEach f (x # xs) s = Inr s' \<longleftrightarrow> (\<exists>s1. f x s = Inr s1 \<and> forEach f xs s1 = Inr s')"
  by (simp add: and_then_Inr)

lemma forEach_compare:
  "forEach (compareOneScreenshot env) rs st = Inr st' \<Longrightarrow>
     changed_list st' = changed_list st @ filter (changes env st) rs \<and>
     unchanged_list st' = unchanged_list st @ filter (\<lambda>r. \<not> changes env st r) rs \<and>
     comparable_list st' = comparable_list st \<and>
     (\<forall>q. verdict env st' q = verdict env st q) \<and>
     (\<forall>r \<in> set rs. \<exists>d f. verdict env st r = Inr (d, f) \<and>
        diff_image_result (store st' r) = Some d \<and> capture_state (store st' r) = DIFFED) \<and>
     (\<forall>q. q \<notin> set rs \<longrightarrow> store st' q = store st q) \<and>
     (\<forall>q. user_agent (store st' q) = user_agent (store st q) \<and>
          html_file_path (store st' q) = html_file_path (store st q))"
proof (induction rs arbitrary: st)
  case Nil
  then show ?case by simp
next
  case (Cons r rs)
  from Cons.prems obtain s1 where
    one: "compareOneScreenshot env r st = Inr s1" and rest: "forEach (compareOneScreenshot env) rs s1 = Inr st'"
    unfolding forEach_Cons_Inr by blast
  from compareOneScreenshot_Inr [OF one] obtain d f where
    v: "verdict env st r = Inr (d, f)"
    and s: "store s1 = (store st)(r := (store st r)\<lparr>
                            diff_image_result := Some d,
                            Screenshot.diff_image_file := Some (DiffImageResult.diff_image_file d),
                            capture_state := DIFFED\<rparr>)"
    and c: "comparable_list s1 = comparable_list st"
    and ch: "changed_list s1 = changed_list st @ (if has_changed d then [r] else [])"
    and un: "unchanged_list s1 = unchanged_list st @ (if has_changed d then [] else [r])"
    by blast
  have vs: "verdict env s1 q = verdict env st q" for q by (rule verdict_step [OF one])
  have cs: "changes env s1 = changes env st" by (rule ext) (rule changes_step [OF one])
  have hd: "changes env st r = has_changed d" by (simp add: changes_def v)
  note IH = Cons.IH [OF rest]
  have 1: "changed_list st' = changed_list st @ filter (changes env st) (r # rs)"
    using IH ch hd by (simp add: cs)
  have 2: "unchanged_list st' = unchanged_list st @ filter (\<lambda>r. \<not> changes env st r) (r # rs)"
    using IH un hd by (simp add: cs)
  have 3: "comparable_list st' = comparable_list st" using IH c by simp
  have 4: "\<forall>q. verdict env st' q = verdict env st q" using IH vs by simp
  have 5: "\<forall>q \<in> set (r # rs). \<exists>d f. verdict env st q = Inr (d, f) \<and>
        diff_image_result (store st' q) = Some d \<and> capture_state (store st' q) = DIFFED"
  proof
    fix q assume q: "q \<in> set (r # rs)"
    show "\<exists>d f. verdict env st q = Inr (d, f) \<and>
        diff_image_result (store st' q) = Some d \<and> capture_state (store st' q) = DIFFED"
    proof (cases "q \<in> set rs")
      case True
      then show ?thesis using IH vs by simp
    next
      case False
      with q have qr: "q = r" by simp
      from False IH have "store st' q = store s1 q" by blast
      then show ?thesis using v s qr by simp
    qed
  qed
  have 6: "\<forall>q. q \<notin> set (r # rs) \<longrightarrow> store st' q = store st q"
    using IH s by simp
  have 7: "\<forall>q. user_agent (store st' q) = user_agent (store st q) \<and>
          html_file_path (store st' q) = html_file_path (store st q)"
    using IH s by simp
  from 1 2 3 4 5 6 7 show ?case by blast
qed

subsection \<open>Grouping\<close>

lemma groupByBrowser_step:
  "groupByBrowser heap xs = forEach (group_step (\<lambda>r. alias' (user_agent (heap r)))) xs Map.empty"
  unfolding groupByBrowser_def group_step_def Let_def ..

lemma groupByPage_step:
  "groupByPage heap xs = forEach (group_step (\<lambda>r. html_file_path (heap r))) xs Map.empty"
  unfolding groupByPage_def group_step_def Let_def ..

lemma group_step_subset:
  assumes "group_step key x m = Inr m'" and "\<forall>k l. m k = Some l \<longrightarrow> set l \<subseteq> S"
  shows "\<forall>k l. m' k = Some l \<longrightarrow> set l \<subseteq> insert x S"
proof (cases "m (key x)")
  case None
  with assms(1) have "m' = m(key x \<mapsto> [x])"
    by (simp add: group_step_def split: if_splits)
  with assms(2) show ?thesis by (auto split: if_splits)
next
  case (Some list)
  with assms(1) have "m' = m(key x \<mapsto> list @ [x])"
    by (simp add: group_step_def)
  with assms(2) Some show ?thesis by (auto split: if_splits)
qed

lemma forEach_group_subset:
  "forEach (group_step key) xs m = Inr m' \<Longrightarrow>
   \<forall>k l. m k = Some l \<longrightarrow> set l \<subseteq> S \<Longrightarrow>
   \<forall>k l. m' k = Some l \<longrightarrow> set l \<subseteq> S \<union> set xs"
proof (induction xs arbitrary: m S)
  case Nil
  then show ?case by simp
next
  case (Cons x xs)
  from Cons.prems(1) obtain m1 where
    one: "group_step key x m = Inr m1" and rest: "forEach (group_step key) xs m1 = Inr m'"
    unfolding forEach_Cons_Inr by blast
  have "\<forall>k l. m1 k = Some l \<longrightarrow> set l \<subseteq> insert x S"
    by (rule group_step_subset [OF one Cons.prems(2)])
  from Cons.IH [OF rest this] show ?case by simp
qed

lemma groupByBrowser_subset:
  "groupByBrowser heap xs = Inr m \<Longrightarrow> m k = Some l \<Longrightarrow> set l \<subseteq> set xs"
  unfolding groupByBrowser_step
  using forEach_group_subset [of _ xs Map.empty m "{}"] by simp

lemma mset_permuted:
  assumes "mset order = mset [0..<length xs]"
  shows "mset (map (\<lambda>i. xs ! i) order) = mset xs"
proof -
  have "mset (map (\<lambda>i. xs ! i) order) = image_mset (\<lambda>i. xs ! i) (mset order)" by simp
  also have "\<dots> = image_mset (\<lambda>i. xs ! i) (mset [0..<length xs])" by (simp only: assms)
  also have "\<dots> = mset (map (\<lambda>i. xs ! i) [0..<length xs])" by simp
  also have "\<dots> = mset xs" by (simp only: map_nth)
  finally show ?thesis .
qed

lemma compareAllScreenshots_Inr:
  assumes "compareAllScreenshots env order st = Inr st'"
  shows "\<exists>s1 cb cp ub up.
     forEach (compareOneScreenshot env) (map (\<lambda>i. comparable_list st ! i) order) st = Inr s1 \<and>
     groupByBrowser (store s1) (changed_list s1) = Inr cb \<and>
     groupByPage (store s1) (changed_list s1) = Inr cp \<and>
     groupByBrowser (store s1) (unchanged_list s1) = Inr ub \<and>
     groupByPage (store s1) (unchanged_list s1) = Inr up \<and>
     st' = s1\<lparr>report := (report s1)\<lparr>screenshots :=
               (ReportData.screenshots (report s1))\<lparr>
                  changed_screenshot_browser_map := cb,
                  changed_screenshot_page_map := cp,
                  unchanged_screenshot_browser_map := ub,
                  unchanged_screenshot_page_map := up\<rparr>\<rparr>\<rparr>"
  using assms
  unfolding compareAllScreenshots_def Let_def and_then_Inr changed_list_def unchanged_list_def
    comparable_list_def
  by (elim exE conjE) (intro exI conjI, assumption+, simp)

subsection \<open>The example run\<close>

lemma example_verdicts:
  "compareOneImage example_env_files rd (example_file ''golden.png'') (example_file ''golden.png'') =
     Inr (\<lparr>DiffImageResult.diff_image_file =
             \<lparr>public_url = remote_upload_base_url (meta rd) @ remote_upload_base_dir (meta rd) @ ''golden.diff.png'',
                relative_path = ''golden.diff.png'',
                absolute_path = local_diff_image_base_dir (meta rd) @ ''/golden.diff.png''\<rparr>,
           diff_pixel_count = Fin 0, diff_pixel_fraction = Fin 0, has_changed = False\<rparr>,
          (local_diff_image_base_dir (meta rd) @ ''/golden.diff.png'', map of_char ''/golden.png''))"
  "compareOneImage example_env_files rd (example_file ''new.png'') (example_file ''golden.png'') =
     Inr (\<lparr>DiffImageResult.diff_image_file =
             \<lparr>public_url = remote_upload_base_url (meta rd) @ remote_upload_base_dir (meta rd) @ ''new.diff.png'',
                relative_path = ''new.diff.png'',
                absolute_path = local_diff_image_base_dir (meta rd) @ ''/new.diff.png''\<rparr>,
           diff_pixel_count = Fin 100, diff_pixel_fraction = Fin 1, has_changed = True\<rparr>,
          (local_diff_image_base_dir (meta rd) @ ''/new.diff.png'', map of_char ''/new.png''))"
  by (simp_all add: compareOneImage_def example_env_files_def example_file_def
      and_then_def computeDiff_def analyzeComparisonResult_def createDiffImageFile_def
      replace_def canonicalize_def Let_def js_ge_Fin)

lemma example_run:
  "\<exists>st'. compareAllScreenshots example_env_files [1, 0] example_state = Inr st' \<and>
     changed_list st' = [1] \<and> unchanged_list st' = [0] \<and>
     changed_screenshot_browser_map (ReportData.screenshots (report st'))
       ''desktop_windows_chrome'' = Some [1] \<and>
     unchanged_screenshot_page_map (ReportData.screenshots (report st')) ''page.html'' = Some [0] \<and>
     map_option has_changed (diff_image_result (store st' 0)) = Some False \<and>
     map_option has_changed (diff_image_result (store st' 1)) = Some True"
  by (simp add: compareAllScreenshots_def compareOneScreenshot_def example_state_def
      example_report_def example_screenshot_def example_verdicts and_then_def Let_def
      groupByBrowser_def groupByPage_def object_prototype_keys_def example_userAgent_def
      changed_list_def unchanged_list_def)

subsection \<open>The claim on the partition\<close>

text \<open>
  C6. When \<open>compareAllScreenshots\<close> completes, whatever the order in which the
  comparisons finish, the changed list and the unchanged list have grown by two lists
  that together hold the comparable screenshots, each as often as the comparable list
  does: none is left out, none is added twice. Every comparable screenshot carries its
  diff result and the state DIFFED, and it is among the new changed ones exactly when
  \<open>has_changed\<close> of its diff result is true, among the new unchanged ones exactly when it
  is false. Every screenshot listed in \<open>changed_screenshot_browser_map\<close> is in the changed
  list.
\<close>

theorem compareAllScreenshots_partition:
  assumes run: "compareAllScreenshots env order st = Inr st'"
    and perm: "mset order = mset [0..<length (comparable_list st)]"
  shows "\<exists>cs us.
     changed_list st' = changed_list st @ cs \<and>
     unchanged_list st' = unchanged_list st @ us \<and>
     mset cs + mset us = mset (comparable_list st) \<and>
     (\<forall>r \<in> set (comparable_list st).
        \<exists>d. diff_image_result (store st' r) = Some d \<and>
            capture_state (store st' r) = DIFFED \<and>
            (r \<in> set cs \<longleftrightarrow> has_changed d) \<and>
            (r \<in> set us \<longleftrightarrow> \<not> has_changed d)) \<and>
     (\<forall>k l. changed_screenshot_browser_map (ReportData.screenshots (report st')) k = Some l \<longrightarrow>
        set l \<subseteq> set (changed_list st'))"
proof -
  let ?rs = "map (\<lambda>i. comparable_list st ! i) order"
  from compareAllScreenshots_Inr [OF run] obtain s1 cb cp ub up where
    loop: "forEach (compareOneScreenshot env) ?rs st = Inr s1"
    and cb: "groupByBrowser (store s1) (changed_list s1) = Inr cb"
    and st': "st' = s1\<lparr>report := (report s1)\<lparr>screenshots :=
               (ReportData.screenshots (report s1))\<lparr>
                  changed_screenshot_browser_map := cb,
                  changed_screenshot_page_map := cp,
                  unchanged_screenshot_browser_map := ub,
                  unchanged_screenshot_page_map := up\<rparr>\<rparr>\<rparr>"
    by blast
  note L = forEach_compare [OF loop]
  let ?cs = "filter (changes env st) ?rs" and ?us = "filter (\<lambda>r. \<not> changes env st r) ?rs"
  have same: "changed_list st' = changed_list s1" "unchanged_list st' = unchanged_list s1"
    "store st' = store s1"
    "changed_screenshot_browser_map (ReportData.screenshots (report st')) = cb"
    by (simp_all add: st' changed_list_def unchanged_list_def)
  have set_rs: "set ?rs = set (comparable_list st)"
    using mset_permuted [OF perm] by (metis set_mset_mset)
  have 1: "changed_list st' = changed_list st @ ?cs" using L by (simp add: same)
  have 2: "unchanged_list st' = unchanged_list st @ ?us" using L by (simp add: same)
  have 3: "mset ?cs + mset ?us = mset (comparable_list st)"
    using mset_permuted [OF perm] by simp
  have 4: "\<forall>r \<in> set (comparable_list st).
        \<exists>d. diff_image_result (store st' r) = Some d \<and>
            capture_state (store st' r) = DIFFED \<and>
            (r \<in> set ?cs \<longleftrightarrow> has_changed d) \<and>
            (r \<in> set ?us \<longleftrightarrow> \<not> has_changed d)"
  proof
    fix r assume r: "r \<in> set (comparable_list st)"
    then have rin: "r \<in> set ?rs" by (simp only: set_rs)
    with L obtain d f where v: "verdict env st r = Inr (d, f)"
      and d: "diff_image_result (store s1 r) = Some d" "capture_state (store s1 r) = DIFFED"
      by blast
    have c: "changes env st r = has_changed d" by (simp add: changes_def v)
    show "\<exists>d. diff_image_result (store st' r) = Some d \<and>
            capture_state (store st' r) = DIFFED \<and>
            (r \<in> set ?cs \<longleftrightarrow> has_changed d) \<and>
            (r \<in> set ?us \<longleftrightarrow> \<not> has_changed d)"
      using d c rin by (intro exI [of _ d]) (simp add: same del: set_map)
  qed
  have 5: "\<forall>k l. changed_screenshot_browser_map (ReportData.screenshots (report st')) k = Some l \<longrightarrow>
        set l \<subseteq> set (changed_list st')"
    using groupByBrowser_subset [OF cb] by (simp add: same)
  from 1 2 3 4 5 show ?thesis by blast
qed

text \<open>
  The two example screenshots, the second finishing first: the run completes, the second
  is changed and the first unchanged.
\<close>

theorem compareAllScreenshots_partition_witness:
  "mset [1, 0] = mset [0..<length (comparable_list example_state)] \<and>
   comparable_list example_state = [0, 1] \<and>
   (\<exists>st'. compareAllScreenshots example_env_files [1, 0] example_state = Inr st' \<and>
      changed_list st' = [1] \<and> unchanged_list st' = [0] \<and>
      changed_screenshot_browser_map (ReportData.screenshots (report st'))
        ''desktop_windows_chrome'' = Some [1] \<and>
      map_option has_changed (diff_image_result (store st' 0)) = Some False \<and>
      map_option has_changed (diff_image_result (store st' 1)) = Some True \<and>
      capture_state (store st' 0) = DIFFED \<and> capture_state (store st' 1) = DIFFED)"
proof -
  have c: "comparable_list example_state = [0, 1]"
    by (simp add: comparable_list_def example_state_def example_report_def)
  have perm: "mset [1, 0] = mset [0..<length (comparable_list example_state)]"
    by (simp add: c upt_rec)
  from example_run obtain st' where
    run: "compareAllScreenshots example_env_files [1, 0] example_state = Inr st'"
    and r: "changed_list st' = [1]" "unchanged_list st' = [0]"
      "changed_screenshot_browser_map (ReportData.screenshots (report st'))
        ''desktop_windows_chrome'' = Some [1]"
      "map_option has_changed (diff_image_result (store st' 0)) = Some False"
      "map_option has_changed (diff_image_result (store st' 1)) = Some True"
    by blast
  from compareAllScreenshots_partition [OF run perm]
  have "capture_state (store st' 0) = DIFFED \<and> capture_state (store st' 1) = DIFFED"
    by (auto simp: c)
  with run r c perm show ?thesis by blast
qed

end
